theory Spec2Isabelle
  imports Complex_Main "HOL-Library.Sublist" "HOL-Library.AList"
begin

section \<open>PII detector: a shallow embedding of \<^verbatim>\<open>pii_detector.py\<close>\<close>

text \<open>
  Conventions of the embedding.

  \<^item> A Python \<^verbatim>\<open>str\<close> that comes from the data (a column name, a cell, a keyword it
    is compared with, a recommendation) is the list of its code points, each an
    integer as \<^verbatim>\<open>ord\<close> gives it (0 to \<open>0x10FFFF\<close>; the functions below are defined
    on every integer), so that \<^const>\<open>length\<close> is Python's \<^verbatim>\<open>len\<close>. The
    program's own ASCII identifiers (PII types, method and category names, dtype
    names, regular expressions) are Isabelle strings, one character per code point.
  \<^item> A PII type is the string the program uses (\<^verbatim>\<open>'EMAIL'\<close>, \<^verbatim>\<open>'SSN'\<close>, ...), a
    missing type (\<^verbatim>\<open>None\<close>) is \<^term>\<open>None\<close>.
  \<^item> Python floats that are ratios of counts or decimal literals are \<^typ>\<open>real\<close>
    numbers: \<^verbatim>\<open>0.9\<close> is \<open>9/10\<close>, \<^verbatim>\<open>matches / len(...)\<close> is the exact quotient.
  \<^item> A dictionary whose iteration order the program relies on is an association list
    in insertion order; lookups go through \<^const>\<open>map_of\<close>.
\<close>

subsection \<open>String operations of Python used by the program\<close>

type_synonym codepoint = int

type_synonym pystr = "codepoint list"

text \<open>An ASCII string literal of the program as a Python string.\<close>

definition ascii :: "string \<Rightarrow> pystr" where
  "ascii s = map of_char s"

text \<open>\<^verbatim>\<open>s.lower()\<close>. On an ASCII code point it maps \<open>A\<close> to \<open>Z\<close> onto \<open>a\<close> to \<open>z\<close> and
  changes nothing else. On a code point outside ASCII it follows the Unicode database
  of the Python build, which is not part of the program: the database is a parameter
  \<open>u\<close>, and \<open>u before c after\<close> is the lower-case form (one or more code points) of the
  code point \<open>c\<close> standing between \<open>before\<close> and \<open>after\<close> (the form of a capital sigma
  depends on them).\<close>

type_synonym ucd = "pystr \<Rightarrow> codepoint \<Rightarrow> pystr \<Rightarrow> pystr"

definition lower_ascii :: "codepoint \<Rightarrow> codepoint" where
  "lower_ascii c = (if 65 \<le> c \<and> c \<le> 90 then c + 32 else c)"

fun lower_from :: "ucd \<Rightarrow> pystr \<Rightarrow> pystr \<Rightarrow> pystr" where
  "lower_from u before [] = []"
| "lower_from u before (c # after) =
     (if c < 128 then [lower_ascii c] else u before c after)
       @ lower_from u (before @ [c]) after"

definition lower :: "ucd \<Rightarrow> pystr \<Rightarrow> pystr" where
  "lower u s = lower_from u [] s"

text \<open>\<^verbatim>\<open>str.isspace\<close> on one code point, which is what \<^verbatim>\<open>strip()\<close> removes: the ASCII
  whitespace (tab to carriage return, the separators \<open>0x1C\<close> to \<open>0x1F\<close>, space) and
  the Unicode whitespace \<open>U+0085\<close>, \<open>U+00A0\<close>, \<open>U+1680\<close>, \<open>U+2000\<close> to \<open>U+200A\<close>,
  \<open>U+2028\<close>, \<open>U+2029\<close>, \<open>U+202F\<close>, \<open>U+205F\<close> and \<open>U+3000\<close>.\<close>

definition is_space :: "codepoint \<Rightarrow> bool" where
  "is_space c =
     ((9 \<le> c \<and> c \<le> 13) \<or> (28 \<le> c \<and> c \<le> 32) \<or> c = 0x85 \<or> c = 0xA0
      \<or> c = 0x1680 \<or> (0x2000 \<le> c \<and> c \<le> 0x200A) \<or> c = 0x2028 \<or> c = 0x2029
      \<or> c = 0x202F \<or> c = 0x205F \<or> c = 0x3000)"

definition strip :: "pystr \<Rightarrow> pystr" where
  "strip s = rev (dropWhile is_space (rev (dropWhile is_space s)))"

text \<open>\<^verbatim>\<open>k in s\<close> for strings: \<open>k\<close> occurs in \<open>s\<close> as a contiguous block.\<close>

fun str_in :: "pystr \<Rightarrow> pystr \<Rightarrow> bool" where
  "str_in k [] = (k = [])"
| "str_in k (c # cs) = (prefix k (c # cs) \<or> str_in k cs)"

text \<open>\<^verbatim>\<open>s.split(sep)\<close> for a one-character separator: the list of segments, never empty.\<close>

fun split :: "codepoint \<Rightarrow> pystr \<Rightarrow> pystr list" where
  "split sep [] = [[]]"
| "split sep (c # cs) =
     (if c = sep then [] # split sep cs
      else (case split sep cs of
              [] \<Rightarrow> [[c]]
            | seg # segs \<Rightarrow> (c # seg) # segs))"

subsection \<open>The tables of \<^verbatim>\<open>PIIDetector.__init__\<close>\<close>

text \<open>A string literal of Isabelle cannot hold a backslash. The regular expressions
  below are written with \<^verbatim>\<open>!\<close> where the Python raw string has a backslash (no pattern
  of the program contains \<^verbatim>\<open>!\<close>), and \<open>raw\<close> puts the backslash (character \<open>0x5C\<close>)
  back.\<close>

definition raw :: "string \<Rightarrow> string" where
  "raw s = map (\<lambda>c. if c = CHR ''!'' then CHR 0x5C else c) s"

text \<open>\<^verbatim>\<open>self.pii_patterns\<close>: PII type and the text of its regular expression, in the
  order of the dictionary literal.\<close>

definition pii_patterns :: "(string \<times> string) list" where
  "pii_patterns = map (\<lambda>(pii_type, pattern). (pii_type, raw pattern))
    [(''EMAIL'', ''!b[A-Za-z0-9._%+-]+@[A-Za-z0-9.-]+!.[A-Z|a-z]{2,}!b''),
     (''PHONE'', ''(?:!+?!d{1,3}[-.!s]?)?!(?!d{3}!)?[-.!s]?!d{3}[-.!s]?!d{4}!b''),
     (''SSN'', ''!b!d{3}-!d{2}-!d{4}!b''),
     (''CREDIT_CARD'', ''!b(?:!d{4}[-!s]?){3}!d{4}!b|!b!d{13,19}!b''),
     (''IP_ADDRESS'', ''!b!d{1,3}!.!d{1,3}!.!d{1,3}!.!d{1,3}!b''),
     (''URL'', ''https?://(?:www!.)?[-a-zA-Z0-9@:%._!+~#=]{1,256}!.[a-zA-Z0-9()]{1,6}!b(?:[-a-zA-Z0-9()@:%_!+.~#?&/=]*)''),
     (''DATE_OF_BIRTH'', ''!b!d{1,2}[-/]!d{1,2}[-/]!d{2,4}!b''),
     (''NATIONAL_ID'', ''!b[A-Z0-9]{8,12}!b''),
     (''GPS_COORDINATES'', ''[-+]?!d{1,3}!.!d+,!s*[-+]?!d{1,3}!.!d+''),
     (''IBAN'', ''!b[A-Z]{2}!d{2}[A-Z0-9]{4,30}!b''),
     (''ADDRESS'', ''!d+!s+[A-Za-z!s]+(?:Street|St|Avenue|Ave|Road|Rd|Boulevard|Blvd|Drive|Dr|Lane|Ln)'')]"

text \<open>\<^verbatim>\<open>self.column_keywords\<close>, in the order of the dictionary literal.\<close>

definition column_keywords :: "(string \<times> pystr list) list" where
  "column_keywords = map (\<lambda>(pii_type, keywords). (pii_type, map ascii keywords))
    [(''EMAIL'', [''email'', ''e-mail'', ''mail'', ''email_address'', ''e_mail'']),
     (''PHONE'', [''phone'', ''telephone'', ''mobile'', ''cell'', ''contact_number'',
                  ''phone_num'', ''phone_number'']),
     (''NAME'', [''name'', ''firstname'', ''lastname'', ''first_name'', ''last_name'',
                 ''full_name'', ''username'', ''patient_name'', ''customer_name'',
                 ''employee_name'']),
     (''ID'', [''patient_id'', ''customer_id'', ''employee_id'', ''user_id'', ''person_id'',
               ''id_number'', ''national_id'']),
     (''DOB'', [''dob'', ''birth'', ''birthdate'', ''date_of_birth'', ''birthday'',
                ''birth_date'']),
     (''ADDRESS'', [''address'', ''street'', ''location'', ''residence'', ''home_address'',
                    ''street_address'', ''physical_address'']),
     (''SSN'', [''ssn'', ''social_security'', ''social_security_number'']),
     (''CREDIT_CARD'', [''credit_card'', ''cc'', ''card_number'', ''creditcard'',
                        ''card_num'']),
     (''GENDER'', [''gender'', ''sex'']),
     (''AGE'', [''age'']),
     (''SALARY'', [''salary'', ''income'', ''wage'', ''compensation'', ''pay'']),
     (''MEDICAL'', [''medical_condition'', ''diagnosis'', ''medication'', ''blood_type'',
                    ''medical'', ''condition'', ''disease'', ''illness''])]"

text \<open>\<^verbatim>\<open>self.impact_scores\<close>.\<close>

definition impact_scores :: "(string \<times> int) list" where
  "impact_scores =
    [(''SSN'', 5), (''CREDIT_CARD'', 5), (''NATIONAL_ID'', 5), (''MEDICAL'', 5),
     (''EMAIL'', 4), (''PHONE'', 4), (''ADDRESS'', 4), (''GPS_COORDINATES'', 4),
     (''IBAN'', 4), (''DATE_OF_BIRTH'', 3), (''DOB'', 3), (''NAME'', 3), (''SALARY'', 3),
     (''ID'', 2), (''AGE'', 2), (''GENDER'', 2), (''IP_ADDRESS'', 2), (''URL'', 1)]"

subsection \<open>\<^verbatim>\<open>detect_column_name_heuristic\<close>\<close>

definition non_pii_keywords :: "pystr list" where
  "non_pii_keywords = map ascii
    [''essay'', ''description'', ''comment'', ''notes'', ''text'', ''content'',
     ''body'', ''message'', ''post'', ''article'', ''paragraph'', ''statement'',
     ''summary'', ''review'', ''feedback'', ''provider'', ''company'', ''organization'',
     ''department'', ''title'', ''category'', ''type'', ''status'', ''role'']"

text \<open>The test of the exclusion loop's \<^verbatim>\<open>if\<close>, for one keyword:
  \<^verbatim>\<open>keyword == n or f'_{keyword}' in n or f'{keyword}_' in n\<close>.\<close>

definition excluded_by :: "pystr \<Rightarrow> pystr \<Rightarrow> bool" where
  "excluded_by n keyword =
     (keyword = n \<or> str_in (ascii ''_'' @ keyword) n \<or> str_in (keyword @ ascii ''_'') n)"

text \<open>The two nested loops that fill \<^verbatim>\<open>sorted_items\<close>, before sorting.\<close>

definition keyword_items :: "(string \<times> pystr) list" where
  "keyword_items =
     concat (map (\<lambda>(pii_type, keywords). map (\<lambda>keyword. (pii_type, keyword)) keywords)
                 column_keywords)"

text \<open>\<^verbatim>\<open>sorted_items.sort(key=lambda x: len(x[1]), reverse=True)\<close>: Python's sort is
  stable, also with \<^verbatim>\<open>reverse=True\<close>, and so is \<^const>\<open>sort_key\<close>; descending order of
  the length is ascending order of its negation.\<close>

definition sorted_items :: "(string \<times> pystr) list" where
  "sorted_items = sort_key (\<lambda>x. - int (length (snd x))) keyword_items"

text \<open>The body of the last loop: the three tiers for one pair whose keyword occurs in
  the name; \<^term>\<open>None\<close> when the loop goes on to the next pair.\<close>

definition match_item :: "pystr \<Rightarrow> string \<times> pystr \<Rightarrow> (string \<times> real) option" where
  "match_item n item =
     (let pii_type = fst item; keyword = snd item in
      if str_in keyword n then
        (if keyword = n then Some (pii_type, 9/10)
         else if str_in (ascii ''_'' @ keyword) n \<or> str_in (keyword @ ascii ''_'') n
           then Some (pii_type, 8/10)
         else if keyword = last (split (of_char CHR ''_'') n)
                 \<or> keyword = hd (split (of_char CHR ''_'') n)
           then Some (pii_type, 7/10)
         else None)
      else None)"

fun scan_items :: "pystr \<Rightarrow> (string \<times> pystr) list \<Rightarrow> string option \<times> real" where
  "scan_items n [] = (None, 0)"
| "scan_items n (item # items) =
     (case match_item n item of
        Some (pii_type, conf) \<Rightarrow> (Some pii_type, conf)
      | None \<Rightarrow> scan_items n items)"

definition detect_column_name_heuristic :: "ucd \<Rightarrow> pystr \<Rightarrow> string option \<times> real" where
  "detect_column_name_heuristic u column_name =
     (let column_name_lower = strip (lower u column_name) in
      if list_ex (excluded_by column_name_lower) non_pii_keywords then (None, 0)
      else scan_items column_name_lower sorted_items)"

subsection \<open>Columns of a data frame\<close>

text \<open>
  A column (a \<^verbatim>\<open>pandas.Series\<close> taken from the frame) has its label, the name of its
  \<^verbatim>\<open>dtype\<close>, and its cells in row order. A missing cell (\<^verbatim>\<open>NaN\<close>, \<^verbatim>\<open>None\<close>) is
  \<^term>\<open>None\<close>; a present cell is given by its text, which is what \<^verbatim>\<open>astype(str)\<close>
  makes of it and is the value itself in a column of strings. A data frame is the list
  of its columns in the order of \<^verbatim>\<open>df.columns\<close>, with labels that are strings and
  pairwise different, so that \<^verbatim>\<open>df[column]\<close> is the column with that label.
\<close>

record column =
  name :: pystr
  dtype :: string
  cells :: "pystr option list"

text \<open>\<^verbatim>\<open>Series.dropna()\<close>: the present cells, in order.\<close>

fun dropna :: "'a option list \<Rightarrow> 'a list" where
  "dropna [] = []"
| "dropna (None # cs) = dropna cs"
| "dropna (Some v # cs) = v # dropna cs"

text \<open>\<^verbatim>\<open>Series.nunique()\<close>: pandas calls it with \<^verbatim>\<open>dropna=True\<close> by default, so it
  counts the distinct values among the present cells.\<close>

definition nunique :: "'a option list \<Rightarrow> nat" where
  "nunique cs = length (remdups (dropna cs))"

text \<open>\<^verbatim>\<open>Series.isna().sum()\<close>.\<close>

definition isna_sum :: "'a option list \<Rightarrow> nat" where
  "isna_sum cs = length (filter (\<lambda>c. c = None) cs)"

subsection \<open>\<^verbatim>\<open>detect_pattern_based\<close>\<close>

text \<open>
  The regular-expression engine is Python's, not the program's: it is a parameter
  \<open>re\<close> of the detector. \<open>re pattern s\<close> is \<^term>\<open>Some True\<close> when the pattern is
  found somewhere in \<open>s\<close>, \<^term>\<open>Some False\<close> when it is not, and \<^term>\<open>None\<close> when
  the engine raises. Everything proved below holds for every such engine.
\<close>

type_synonym regex_engine = "string \<Rightarrow> pystr \<Rightarrow> bool option"

text \<open>\<^verbatim>\<open>string_data.str.contains(pattern, regex=True, na=False).sum()\<close>: the number of
  values the pattern is found in; \<^term>\<open>None\<close> when the call raises.\<close>

definition contains_sum :: "regex_engine \<Rightarrow> string \<Rightarrow> pystr list \<Rightarrow> nat option" where
  "contains_sum re pattern string_data =
     (if list_ex (\<lambda>s. re pattern s = None) string_data then None
      else Some (length (filter (\<lambda>s. re pattern s = Some True) string_data)))"

text \<open>The loop over \<^verbatim>\<open>self.pii_patterns.items()\<close> that fills the dictionary
  \<^verbatim>\<open>pattern_matches\<close> (the accumulator). An exception inside \<^verbatim>\<open>try\<close> and the length
  guard on the first value both go on to the next pattern.\<close>

fun test_patterns ::
  "regex_engine \<Rightarrow> pystr list \<Rightarrow> (string \<times> string) list \<Rightarrow> (string \<times> real) list
     \<Rightarrow> (string \<times> real) list" where
  "test_patterns re string_data [] pattern_matches = pattern_matches"
| "test_patterns re string_data ((pii_type, pattern) # rest) pattern_matches =
     (case contains_sum re pattern string_data of
        None \<Rightarrow> test_patterns re string_data rest pattern_matches
      | Some matches \<Rightarrow>
          (let match_ratio = real matches / real (length string_data) in
           if match_ratio > 3/10 then
             (let sample = (if length string_data > 0 then hd string_data else []) in
              if length sample > 200
              then test_patterns re string_data rest pattern_matches
              else test_patterns re string_data rest
                     (AList.update pii_type match_ratio pattern_matches))
           else test_patterns re string_data rest pattern_matches))"

definition priority_order :: "string list" where
  "priority_order =
    [''CREDIT_CARD'', ''SSN'', ''IBAN'', ''EMAIL'', ''PHONE'', ''IP_ADDRESS'',
     ''GPS_COORDINATES'', ''DATE_OF_BIRTH'', ''NATIONAL_ID'', ''ADDRESS'', ''URL'']"

text \<open>The loop over \<^verbatim>\<open>priority_order\<close>; \<^term>\<open>None\<close> when it ends without returning.\<close>

fun scan_priority :: "(string \<times> real) list \<Rightarrow> string list \<Rightarrow> (string option \<times> real) option" where
  "scan_priority pattern_matches [] = None"
| "scan_priority pattern_matches (pii_type # rest) =
     (case map_of pattern_matches pii_type of
        Some ratio \<Rightarrow>
          (if ratio > 1/2 then Some (Some pii_type, ratio)
           else scan_priority pattern_matches rest)
      | None \<Rightarrow> scan_priority pattern_matches rest)"

text \<open>\<^verbatim>\<open>max(items, key=lambda x: x[1])\<close> on a sequence that starts with \<open>best\<close>: the first
  item that no other item exceeds.\<close>

fun max_item :: "string \<times> real \<Rightarrow> (string \<times> real) list \<Rightarrow> string \<times> real" where
  "max_item best [] = best"
| "max_item best (x # xs) = (if snd x > snd best then max_item x xs else max_item best xs)"

definition mean_len :: "pystr list \<Rightarrow> real" where
  "mean_len string_data = real (sum_list (map length string_data)) / real (length string_data)"

definition detect_pattern_based :: "regex_engine \<Rightarrow> column \<Rightarrow> string option \<times> real" where
  "detect_pattern_based re column_data =
     (if dtype column_data \<notin> set [''object'', ''string''] then (None, 0)
      else
        (let string_data = dropna (cells column_data) in
         if length string_data = 0 then (None, 0)
         else if mean_len string_data > 500 then (None, 0)
         else
           (case test_patterns re string_data pii_patterns [] of
              [] \<Rightarrow> (None, 0)
            | first # others \<Rightarrow>
                (case scan_priority (first # others) priority_order of
                   Some found \<Rightarrow> found
                 | None \<Rightarrow>
                     (let best_match = max_item first others in
                      if snd best_match > 1/2 then (Some (fst best_match), snd best_match)
                      else (None, 0)))))) "

subsection \<open>Uniqueness, risk score, category, recommendation\<close>

definition calculate_uniqueness :: "column \<Rightarrow> real" where
  "calculate_uniqueness column_data =
     (if length (cells column_data) = 0 then 0
      else (let unique_count = nunique (cells column_data);
                total_count = length (cells column_data)
            in real unique_count / real total_count))"

definition calculate_risk_score :: "string \<Rightarrow> int \<Rightarrow> real \<Rightarrow> real" where
  "calculate_risk_score pii_type impact uniqueness =
     (let risk_score = 20 * real_of_int impact * uniqueness in min risk_score 100)"

definition categorize_risk :: "real \<Rightarrow> string" where
  "categorize_risk risk_score =
     (if risk_score \<le> 30 then ''Low''
      else if risk_score \<le> 70 then ''Medium''
      else ''High'')"

definition recommendations :: "(string \<times> string) list" where
  "recommendations =
    [(''SSN'', ''Tokenization or full masking (e.g., ***-**-1234)''),
     (''CREDIT_CARD'', ''Tokenization or partial masking (e.g., ****-****-****-1234)''),
     (''NATIONAL_ID'', ''Tokenization or hashing with salt''),
     (''EMAIL'', ''Hashing or partial masking (e.g., j***@example.com)''),
     (''PHONE'', ''Masking last 4 digits (e.g., ***-***-1234)''),
     (''ADDRESS'', ''Generalization to city/region level''),
     (''GPS_COORDINATES'', ''Reduce precision to neighborhood level''),
     (''DATE_OF_BIRTH'', ''Generalization to birth year only''),
     (''DOB'', ''Generalization to birth year only''),
     (''NAME'', ''Pseudonymization or tokenization''),
     (''ID'', ''Tokenization or hashing''),
     (''SALARY'', ''Generalization to salary ranges''),
     (''MEDICAL'', ''Remove or encrypt; strict access control required''),
     (''IBAN'', ''Tokenization or partial masking''),
     (''IP_ADDRESS'', ''Remove last octet (e.g., 192.168.1.***)''),
     (''URL'', ''Domain extraction only if needed''),
     (''AGE'', ''Generalization to age ranges (e.g., 20-30)''),
     (''GENDER'', ''Keep if necessary for analysis; consider aggregation'')]"

text \<open>\<^verbatim>\<open>d.get(key, default)\<close> on a dictionary given as an association list.\<close>

definition dict_get :: "('k \<times> 'v) list \<Rightarrow> 'k \<Rightarrow> 'v \<Rightarrow> 'v" where
  "dict_get d key dflt = (case map_of d key of None \<Rightarrow> dflt | Some v \<Rightarrow> v)"

text \<open>The three markers that open a recommendation: the code points of the source
  file's string literals, read as UTF-8 (\<open>U+00F0 U+0178 U+201D U+00B4\<close> for High).
  Each is followed by a space in the result.\<close>

definition marker_high :: pystr where
  "marker_high = [0xF0, 0x178, 0x201D, 0xB4]"

definition marker_medium :: pystr where
  "marker_medium = [0xF0, 0x178, 0x178, 0xA1]"

definition marker_low :: pystr where
  "marker_low = [0xF0, 0x178, 0x178, 0xA2]"

definition recommend_action :: "string \<Rightarrow> string \<Rightarrow> pystr" where
  "recommend_action pii_type risk_category =
     (let base_recommendation =
            dict_get recommendations pii_type ''Apply appropriate anonymization technique''
      in if risk_category = ''High''
         then marker_high @ ascii '' URGENT: '' @ ascii base_recommendation
         else if risk_category = ''Medium''
         then marker_medium @ ascii '' '' @ ascii base_recommendation
         else marker_low @ ascii '' '' @ ascii base_recommendation)"

subsection \<open>\<^verbatim>\<open>analyze_dataset\<close>\<close>

text \<open>One row of the result. The program renders \<open>Confidence\<close> and \<open>Uniqueness\<close> as
  percentages and \<open>Risk_Score\<close> with two decimals when it builds the row; the record
  holds the numbers that are rendered.\<close>

record finding =
  Column_Name :: pystr
  PII_Type :: string
  Detection_Method :: string
  Confidence :: real
  Impact :: int
  Uniqueness :: real
  Risk_Score :: real
  Risk_Category :: string
  Recommended_Action :: pystr
  Data_Type :: string
  Unique_Values :: nat
  Null_Count :: nat

text \<open>"Combine detections": the \<^verbatim>\<open>if\<close>/\<^verbatim>\<open>elif\<close>/\<^verbatim>\<open>else\<close> on the two confidences, from the
  two detectors' results to \<^verbatim>\<open>(pii_type, confidence, detection_method)\<close>.\<close>

definition combine ::
  "string option \<times> real \<Rightarrow> string option \<times> real \<Rightarrow> string option \<times> real \<times> string" where
  "combine pattern heuristic =
     (let pattern_type = fst pattern; pattern_conf = snd pattern;
          heuristic_type = fst heuristic; heuristic_conf = snd heuristic
      in if pattern_conf > heuristic_conf then (pattern_type, pattern_conf, ''Pattern-Based'')
         else if heuristic_conf > 0 then (heuristic_type, heuristic_conf, ''Column Name Heuristic'')
         else (None, 0, ''None''))"

text \<open>"Calculate metrics if PII detected": the row appended for a column, for the
  adopted type, confidence and method.\<close>

definition make_finding :: "column \<Rightarrow> string \<Rightarrow> real \<Rightarrow> string \<Rightarrow> finding" where
  "make_finding col pii_type confidence detection_method =
     (let uniqueness = calculate_uniqueness col;
          impact = dict_get impact_scores pii_type 2;
          risk_score = calculate_risk_score pii_type impact uniqueness;
          risk_category = categorize_risk risk_score;
          recommendation = recommend_action pii_type risk_category
      in \<lparr> Column_Name = name col, PII_Type = pii_type, Detection_Method = detection_method,
           Confidence = confidence, Impact = impact, Uniqueness = uniqueness,
           Risk_Score = risk_score, Risk_Category = risk_category,
           Recommended_Action = recommendation, Data_Type = dtype col,
           Unique_Values = nunique (cells col), Null_Count = isna_sum (cells col) \<rparr>)"

text \<open>The body of the loop over the columns: \<^term>\<open>Some\<close> row when one is appended to
  \<^verbatim>\<open>results\<close>. \<^verbatim>\<open>if pii_type:\<close> is false for \<^verbatim>\<open>None\<close> and for the empty string.\<close>

definition analyze_column :: "ucd \<Rightarrow> regex_engine \<Rightarrow> column \<Rightarrow> finding option" where
  "analyze_column u re col =
     (case combine (detect_pattern_based re col) (detect_column_name_heuristic u (name col)) of
        (None, confidence, detection_method) \<Rightarrow> None
      | (Some pii_type, confidence, detection_method) \<Rightarrow>
          (if pii_type = [] then None
           else Some (make_finding col pii_type confidence detection_method)))"

fun analyze_loop ::
  "ucd \<Rightarrow> regex_engine \<Rightarrow> column list \<Rightarrow> finding list \<Rightarrow> finding list" where
  "analyze_loop u re [] results = results"
| "analyze_loop u re (col # rest) results =
     analyze_loop u re rest
       (case analyze_column u re col of
          None \<Rightarrow> results
        | Some row \<Rightarrow> results @ [row])"

definition analyze_dataset :: "ucd \<Rightarrow> regex_engine \<Rightarrow> column list \<Rightarrow> finding list" where
  "analyze_dataset u re df = analyze_loop u re df []"

section \<open>The specification's wording of three components\<close>

text \<open>The definitions of this section are not taken from the program: they write
  down what the specification says, to be compared with the program's functions.\<close>

text \<open>The uniqueness ratio with "missing values counted as regular values": a missing
  cell is one more value, in the count of distinct values and in the total.\<close>

definition spec_uniqueness :: "column \<Rightarrow> real" where
  "spec_uniqueness column_data =
     (if cells column_data = [] then 0
      else real (card (set (cells column_data))) / real (length (cells column_data)))"

text \<open>The normalized name is the lower-cased name without its leading and trailing
  whitespace: \<open>trimmed_of n s\<close> says that \<open>n\<close> is \<open>s\<close> trimmed.\<close>

definition trimmed_of :: "pystr \<Rightarrow> pystr \<Rightarrow> bool" where
  "trimmed_of n s =
     (\<exists>a b. s = a @ n @ b \<and> list_all is_space a \<and> list_all is_space b
          \<and> (n = [] \<or> (\<not> is_space (hd n) \<and> \<not> is_space (last n))))"

text \<open>The three match strengths of the name heuristic: the keyword is the whole name, it
  appears as a delimited token (\<open>_keyword\<close> or \<open>keyword_\<close>), or it is the first or last
  underscore-delimited segment. \<open>tier_confidence\<close> is the confidence the specification
  gives each of them.\<close>

definition delimited_token :: "pystr \<Rightarrow> pystr \<Rightarrow> bool" where
  "delimited_token keyword n =
     (str_in (ascii ''_'' @ keyword) n \<or> str_in (keyword @ ascii ''_'') n)"

definition edge_segment :: "pystr \<Rightarrow> pystr \<Rightarrow> bool" where
  "edge_segment keyword n =
     (keyword = hd (split (of_char CHR ''_'') n) \<or> keyword = last (split (of_char CHR ''_'') n))"

definition keyword_matches :: "pystr \<Rightarrow> pystr \<Rightarrow> bool" where
  "keyword_matches n keyword =
     (keyword = n \<or> delimited_token keyword n \<or> edge_segment keyword n)"

definition tier_confidence :: "pystr \<Rightarrow> pystr \<Rightarrow> real" where
  "tier_confidence n keyword =
     (if keyword = n then 9/10 else if delimited_token keyword n then 8/10 else 7/10)"


definition match_ratio :: "regex_engine \<Rightarrow> pystr list \<Rightarrow> string \<Rightarrow> real" where
  "match_ratio re string_data pattern =
     (case contains_sum re pattern string_data of
        None \<Rightarrow> 0
      | Some matches \<Rightarrow> real matches / real (length string_data))"

definition candidates :: "regex_engine \<Rightarrow> pystr list \<Rightarrow> (string \<times> real) list" where
  "candidates re string_data =
     filter (\<lambda>(pii_type, ratio). ratio > 3/10 \<and> length (hd string_data) \<le> 200)
       (map (\<lambda>(pii_type, pattern). (pii_type, match_ratio re string_data pattern)) pii_patterns)"

definition qualifying :: "(string \<times> real) list \<Rightarrow> string list" where
  "qualifying cands = map fst (filter (\<lambda>(pii_type, ratio). ratio > 1/2) cands)"

text \<open>The candidates among any list of patterns (for the proof about the loop).\<close>

definition accepted_of ::
  "regex_engine \<Rightarrow> pystr list \<Rightarrow> (string \<times> string) list \<Rightarrow> (string \<times> real) list" where
  "accepted_of re string_data patterns =
     filter (\<lambda>(pii_type, ratio). ratio > 3/10 \<and> length (hd string_data) \<le> 200)
       (map (\<lambda>(pii_type, pattern). (pii_type, match_ratio re string_data pattern)) patterns)"

section \<open>Two instances of the parameters, for the examples\<close>

text \<open>A Unicode database in which no code point outside ASCII has a lower-case form
  other than itself (true of the no-break space \<open>U+00A0\<close> and of the letters \<open>U+00E9\<close>
  used below).\<close>

definition plain_ucd :: ucd where
  "plain_ucd before c after = [c]"

text \<open>A regular-expression engine that finds the SSN pattern in the values that end
  with one of two social security numbers, and finds no other pattern anywhere, as
  Python's engine does on the values of the examples below.\<close>

definition ssn_engine :: regex_engine where
  "ssn_engine pattern s =
     Some (pattern = raw ''!b!d{3}-!d{2}-!d{4}!b''
           \<and> (suffix (ascii ''123-45-6789'') s \<or> suffix (ascii ''987-65-4321'') s))"

section \<open>Properties\<close>

subsection \<open>Strings\<close>

lemma split_nonempty: "split sep s \<noteq> []"
  by (induction s) (auto split: list.splits)

lemma str_in_iff_sublist: "str_in k s \<longleftrightarrow> sublist k s"
  by (induction s) (auto simp: sublist_Cons_right)

lemma split_single: "split sep s = [seg] \<Longrightarrow> seg = s"
proof (induction s arbitrary: seg)
  case Nil
  then show ?case by simp
next
  case (Cons c cs)
  show ?case
  proof (cases "c = sep")
    case True
    with Cons.prems show ?thesis by (simp add: split_nonempty)
  next
    case False
    then obtain seg' segs where sp: "split sep cs = seg' # segs"
      using split_nonempty [of sep cs] by (cases "split sep cs") auto
    with Cons.prems False have "segs = []" "seg = c # seg'" by auto
    with Cons.IH sp show ?thesis by simp
  qed
qed

lemma hd_split_prefix: "prefix (hd (split sep s)) s"
proof (induction s)
  case Nil
  then show ?case by simp
next
  case (Cons c cs)
  then show ?case
    using split_nonempty [of sep cs] by (cases "split sep cs") auto
qed

lemma last_split_suffix: "suffix (last (split sep s)) s"
proof (induction s)
  case Nil
  then show ?case by simp
next
  case (Cons c cs)
  show ?case
  proof (cases "c = sep")
    case True
    with Cons show ?thesis by (simp add: split_nonempty suffix_Cons)
  next
    case False
    obtain seg segs where sp: "split sep cs = seg # segs"
      using split_nonempty [of sep cs] by (cases "split sep cs") auto
    show ?thesis
    proof (cases "segs = []")
      case True
      with sp have "seg = cs" by (simp add: split_single)
      with sp True False show ?thesis by simp
    next
      case False2: False
      with sp Cons False show ?thesis by (simp add: suffix_Cons)
    qed
  qed
qed

lemma sublist_drop_left: "sublist (a @ k) s \<Longrightarrow> sublist k s"
  unfolding sublist_def by (metis append.assoc)

lemma sublist_drop_right: "sublist (k @ a) s \<Longrightarrow> sublist k s"
  unfolding sublist_def by (metis append.assoc)

subsection \<open>Normalizing a name\<close>

lemma lower_from_ascii:
  "\<forall>c \<in> set s. c < 128 \<Longrightarrow> lower_from u before s = map lower_ascii s"
  by (induction s arbitrary: before) auto

lemma lower_ascii_name:
  "\<forall>c \<in> set s. c < 128 \<Longrightarrow>
     lower u s = map (\<lambda>c. if 65 \<le> c \<and> c \<le> 90 then c + 32 else c) s"
  by (simp add: lower_def lower_from_ascii lower_ascii_def)

lemma dropWhile_all: "list_all P xs \<Longrightarrow> dropWhile P (xs @ ys) = dropWhile P ys"
  by (induction xs) auto

lemma strip_trimmed:
  assumes "trimmed_of n s"
  shows "strip s = n"
proof -
  from assms obtain a b where s: "s = a @ n @ b" and a: "list_all is_space a"
    and b: "list_all is_space b"
    and n: "n = [] \<or> (\<not> is_space (hd n) \<and> \<not> is_space (last n))"
    unfolding trimmed_of_def by blast
  have rb: "list_all is_space (rev b)" using b by (simp add: list_all_iff)
  show ?thesis
  proof (cases "n = []")
    case True
    have "dropWhile is_space b = []"
      using b by (simp add: dropWhile_eq_Nil_conv list_all_iff)
    then have d: "dropWhile is_space (a @ [] @ b) = []"
      by (simp add: dropWhile_all [OF a])
    show ?thesis unfolding strip_def s True d by simp
  next
    case False
    with n have h: "\<not> is_space (hd n)" and l: "\<not> is_space (last n)" by simp_all
    have "dropWhile is_space s = n @ b"
      using False h by (cases n) (simp_all add: s dropWhile_all [OF a])
    moreover have "dropWhile is_space (rev b @ rev n) = rev n"
      using False l by (cases "rev n") (simp_all add: dropWhile_all [OF rb] hd_rev)
    ultimately show ?thesis by (simp add: strip_def)
  qed
qed

subsection \<open>The name heuristic as a search for the first matching pair\<close>

lemma keyword_matches_str_in:
  assumes "keyword_matches n keyword"
  shows "str_in keyword n"
proof -
  consider "keyword = n" | "sublist (ascii ''_'' @ keyword) n" | "sublist (keyword @ ascii ''_'') n"
    | "keyword = hd (split (of_char CHR ''_'') n)" | "keyword = last (split (of_char CHR ''_'') n)"
    using assms
    unfolding keyword_matches_def delimited_token_def edge_segment_def str_in_iff_sublist
    by blast
  then have "sublist keyword n"
  proof cases
    case 1
    then show ?thesis by simp
  next
    case 2
    then show ?thesis by (rule sublist_drop_left)
  next
    case 3
    then show ?thesis by (rule sublist_drop_right)
  next
    case 4
    then show ?thesis using hd_split_prefix [of "of_char CHR ''_''" n] by simp
  next
    case 5
    then show ?thesis using last_split_suffix [of "of_char CHR ''_''" n] by simp
  qed
  then show ?thesis by (simp add: str_in_iff_sublist)
qed

lemma match_item_tiers:
  "match_item n (pii_type, keyword) =
     (if keyword_matches n keyword then Some (pii_type, tier_confidence n keyword) else None)"
proof (cases "keyword_matches n keyword")
  case True
  then have "str_in keyword n" by (rule keyword_matches_str_in)
  with True show ?thesis
    by (auto simp: match_item_def keyword_matches_def tier_confidence_def delimited_token_def
        edge_segment_def)
next
  case False
  then show ?thesis
    by (auto simp: match_item_def keyword_matches_def tier_confidence_def delimited_token_def
        edge_segment_def)
qed

lemma scan_items_find:
  "scan_items n items =
     (case find (\<lambda>item. keyword_matches n (snd item)) items of
        None \<Rightarrow> (None, 0)
      | Some item \<Rightarrow> (Some (fst item), tier_confidence n (snd item)))"
proof (induction items)
  case Nil
  then show ?case by simp
next
  case (Cons item items)
  then show ?case by (cases item) (simp add: match_item_tiers)
qed

text \<open>A keyword that is the first or the last segment of the name is the whole name or
  a delimited token of it, so a matching pair always gets confidence 0.9 or 0.8.\<close>

lemma hd_split_whole_or_delimited:
  "hd (split sep s) = s \<or> prefix (hd (split sep s) @ [sep]) s"
proof (induction s)
  case Nil
  then show ?case by simp
next
  case (Cons c cs)
  then show ?case
    using split_nonempty [of sep cs] by (cases "split sep cs") auto
qed

lemma split_lengths:
  "sum_list (map length (split sep s)) + length (split sep s) = Suc (length s)"
proof (induction s)
  case Nil
  then show ?case by simp
next
  case (Cons c cs)
  then show ?case
    using split_nonempty [of sep cs] by (cases "split sep cs") auto
qed

lemma last_split_whole_or_delimited:
  "last (split sep s) = s \<or> suffix (sep # last (split sep s)) s"
proof (induction s)
  case Nil
  then show ?case by simp
next
  case (Cons c cs)
  obtain seg segs where sp: "split sep cs = seg # segs"
    using split_nonempty [of sep cs] by (cases "split sep cs") auto
  show ?case
  proof (cases "c = sep")
    case True
    with Cons sp show ?thesis by (auto simp: suffix_Cons)
  next
    case False
    show ?thesis
    proof (cases "segs = []")
      case True
      with sp have "seg = cs" by (simp add: split_single)
      with sp True False show ?thesis by simp
    next
      case ne: False
      have "length (last segs) \<le> sum_list (map length segs)"
        using ne by (simp add: member_le_sum_list)
      moreover have "sum_list (map length (seg # segs)) + length (seg # segs) = Suc (length cs)"
        using split_lengths [of sep cs] sp by simp
      moreover have "length segs \<ge> 1" using ne by (cases segs) auto
      ultimately have "length (last segs) < length cs" by simp
      then have "last segs \<noteq> cs" by auto
      with Cons sp ne False show ?thesis by (auto simp: suffix_Cons)
    qed
  qed
qed

lemma edge_segment_is_whole_or_delimited:
  assumes "edge_segment keyword n"
  shows "keyword = n \<or> delimited_token keyword n"
proof -
  from assms consider "keyword = hd (split (of_char CHR ''_'') n)" | "keyword = last (split (of_char CHR ''_'') n)"
    unfolding edge_segment_def by blast
  then show ?thesis
  proof cases
    case 1
    with hd_split_whole_or_delimited [of "of_char CHR ''_''" n]
    have "keyword = n \<or> prefix (keyword @ ascii ''_'') n" by (simp add: ascii_def)
    then show ?thesis
      by (auto simp: delimited_token_def str_in_iff_sublist)
  next
    case 2
    with last_split_whole_or_delimited [of "of_char CHR ''_''" n]
    have "keyword = n \<or> suffix (ascii ''_'' @ keyword) n" by (simp add: ascii_def)
    then show ?thesis
      by (auto simp: delimited_token_def str_in_iff_sublist)
  qed
qed

lemma tier_confidence_of_match:
  "keyword_matches n keyword \<Longrightarrow> tier_confidence n keyword \<in> {8/10, 9/10}"
  using edge_segment_is_whole_or_delimited [of keyword n]
  by (auto simp: keyword_matches_def tier_confidence_def)

subsection \<open>Risk score and category\<close>

text \<open>
  Claim C4. For an impact from 1 to 5 and a uniqueness in \<open>[0,1]\<close>, the risk score is
  \<open>min (20 * impact * uniqueness) 100\<close>, lies between 0 and 100, and is 0 when the
  uniqueness is 0. The category is Low up to and including 30, Medium above 30 up to
  and including 70, and High above 70: 30 is Low, 70 is Medium, 70.01 is High.
\<close>

theorem risk_score_formula:
  assumes "1 \<le> impact" "impact \<le> 5" "0 \<le> uniqueness" "uniqueness \<le> 1"
  shows "calculate_risk_score pii_type impact uniqueness
           = min (20 * real_of_int impact * uniqueness) 100
       \<and> 0 \<le> calculate_risk_score pii_type impact uniqueness
       \<and> calculate_risk_score pii_type impact uniqueness \<le> 100
       \<and> calculate_risk_score pii_type impact 0 = 0
       \<and> categorize_risk 30 = ''Low''
       \<and> categorize_risk 70 = ''Medium''
       \<and> categorize_risk (7001 / 100) = ''High''
       \<and> (\<forall>score. (score \<le> 30 \<longrightarrow> categorize_risk score = ''Low'')
                \<and> (30 < score \<and> score \<le> 70 \<longrightarrow> categorize_risk score = ''Medium'')
                \<and> (70 < score \<longrightarrow> categorize_risk score = ''High''))"
  using assms by (simp add: calculate_risk_score_def categorize_risk_def)

theorem risk_score_formula_witness:
  "calculate_risk_score ''SSN'' 5 (1/2) = 50
   \<and> calculate_risk_score ''SSN'' 5 1 = 100
   \<and> calculate_risk_score ''SSN'' 5 0 = 0
   \<and> categorize_risk 30 = ''Low'' \<and> categorize_risk 70 = ''Medium''
   \<and> categorize_risk (7001 / 100) = ''High''"
proof -
  have a: "(1::int) \<le> 5" "(5::int) \<le> 5" "(0::real) \<le> 1/2" "(1/2::real) \<le> 1" by simp_all
  have b: "(0::real) \<le> 1" "(1::real) \<le> 1" by simp_all
  show ?thesis
    using risk_score_formula [OF a, of "''SSN''"] risk_score_formula [OF a(1,2) b, of "''SSN''"]
    by simp
qed

subsection \<open>Lookups of a type that has no entry\<close>

text \<open>
  Claim C9. For a PII type with no entry in the impact table the impact lookup gives 2,
  and for one with no entry in the recommendation table the recommendation is the
  generic message "Apply appropriate anonymization technique" behind the marker of the
  risk category. The row built for such a type carries these values: neither lookup
  has a failing branch.
\<close>

theorem unmapped_type_defaults:
  assumes "map_of impact_scores pii_type = None" "map_of recommendations pii_type = None"
  shows "dict_get impact_scores pii_type 2 = 2
     \<and> Impact (make_finding col pii_type confidence detection_method) = 2
     \<and> recommend_action pii_type ''High'' =
         marker_high @ ascii '' URGENT: '' @ ascii ''Apply appropriate anonymization technique''
     \<and> recommend_action pii_type ''Medium'' =
         marker_medium @ ascii '' '' @ ascii ''Apply appropriate anonymization technique''
     \<and> recommend_action pii_type ''Low'' =
         marker_low @ ascii '' '' @ ascii ''Apply appropriate anonymization technique''
     \<and> Recommended_Action (make_finding col pii_type confidence detection_method) =
         recommend_action pii_type
           (categorize_risk (calculate_risk_score pii_type 2 (calculate_uniqueness col)))"
  using assms by (simp add: dict_get_def recommend_action_def make_finding_def Let_def)

lemma passport_unmapped:
  "map_of impact_scores ''PASSPORT'' = None" "map_of recommendations ''PASSPORT'' = None"
  by (simp_all add: impact_scores_def recommendations_def)

theorem unmapped_type_defaults_witness:
  "map_of impact_scores ''PASSPORT'' = None \<and> map_of recommendations ''PASSPORT'' = None
   \<and> dict_get impact_scores ''PASSPORT'' 2 = 2
   \<and> recommend_action ''PASSPORT'' ''Low'' =
         marker_low @ ascii '' Apply appropriate anonymization technique''"
  using unmapped_type_defaults [OF passport_unmapped] passport_unmapped
  by (simp add: ascii_def)

subsection \<open>The exclusion list of the name heuristic\<close>

text \<open>
  Claim C8. When the lower-cased, trimmed column name equals an entry of the exclusion
  list, or contains \<open>_entry\<close> or \<open>entry_\<close>, the name heuristic returns no detection,
  whatever PII keyword the name also contains. In particular it returns no type for
  the names "description" and "status_notes".
\<close>

theorem exclusion_precedence:
  "((\<exists>keyword \<in> set non_pii_keywords.
        keyword = strip (lower u column_name)
        \<or> str_in (ascii ''_'' @ keyword) (strip (lower u column_name))
        \<or> str_in (keyword @ ascii ''_'') (strip (lower u column_name)))
     \<longrightarrow> detect_column_name_heuristic u column_name = (None, 0))
   \<and> detect_column_name_heuristic u (ascii ''description'') = (None, 0)
   \<and> detect_column_name_heuristic u (ascii ''status_notes'') = (None, 0)"
proof (intro conjI impI)
  assume "\<exists>keyword \<in> set non_pii_keywords.
        keyword = strip (lower u column_name)
        \<or> str_in (ascii ''_'' @ keyword) (strip (lower u column_name))
        \<or> str_in (keyword @ ascii ''_'') (strip (lower u column_name))"
  then have "list_ex (excluded_by (strip (lower u column_name))) non_pii_keywords"
    unfolding list_ex_iff excluded_by_def .
  then show "detect_column_name_heuristic u column_name = (None, 0)"
    by (simp add: detect_column_name_heuristic_def)
next
  show "detect_column_name_heuristic u (ascii ''description'') = (None, 0)" by code_simp
next
  show "detect_column_name_heuristic u (ascii ''status_notes'') = (None, 0)" by code_simp
qed

text \<open>A name that holds the PII keyword "name" and the excluded keyword "status".\<close>

theorem exclusion_precedence_witness:
  "ascii ''status'' \<in> set non_pii_keywords
   \<and> str_in (ascii ''_'' @ ascii ''status'') (strip (lower plain_ucd (ascii '' Name_Status'')))
   \<and> detect_column_name_heuristic plain_ucd (ascii '' Name_Status'') = (None, 0)"
proof -
  have m: "ascii ''status'' \<in> set non_pii_keywords" by (simp add: non_pii_keywords_def)
  have s: "str_in (ascii ''_'' @ ascii ''status'')
             (strip (lower plain_ucd (ascii '' Name_Status'')))" by code_simp
  from m s have "\<exists>keyword \<in> set non_pii_keywords.
        keyword = strip (lower plain_ucd (ascii '' Name_Status''))
        \<or> str_in (ascii ''_'' @ keyword) (strip (lower plain_ucd (ascii '' Name_Status'')))
        \<or> str_in (keyword @ ascii ''_'') (strip (lower plain_ucd (ascii '' Name_Status'')))"
    by blast
  with exclusion_precedence [of plain_ucd "ascii '' Name_Status''"] m s show ?thesis by blast
qed

subsection \<open>Combining the two detections\<close>

text \<open>With both confidences at 0.6 the claim as stated drops the heuristic result; the
  program adopts it.\<close>

theorem tie_keeps_heuristic_counterexample:
  "fst (combine (Some ''SSN'', 6/10) (Some ''NAME'', 6/10)) = Some ''NAME''
   \<and> snd (snd (combine (Some ''SSN'', 6/10) (Some ''NAME'', 6/10))) = ''Column Name Heuristic''"
  by (simp add: combine_def)

text \<open>
  Claim C2, as amended. When the pattern confidence and the heuristic confidence are
  equal at 0.6 (or at any positive value), the heuristic result is adopted and the
  pattern result is dropped. For confidences that are not negative, the adopted method
  is "None" exactly when both confidences are 0, and it is Pattern-Based exactly when
  the pattern confidence is strictly greater than the heuristic confidence.
\<close>

theorem combine_tie_break:
  assumes "0 \<le> pattern_conf" "0 \<le> heuristic_conf"
  shows "combine (pattern_type, 6/10) (heuristic_type, 6/10)
           = (heuristic_type, 6/10, ''Column Name Heuristic'')
     \<and> (pattern_conf = heuristic_conf \<and> 0 < heuristic_conf \<longrightarrow>
          combine (pattern_type, pattern_conf) (heuristic_type, heuristic_conf)
            = (heuristic_type, heuristic_conf, ''Column Name Heuristic''))
     \<and> (snd (snd (combine (pattern_type, pattern_conf) (heuristic_type, heuristic_conf))) = ''None''
          \<longleftrightarrow> pattern_conf = 0 \<and> heuristic_conf = 0)
     \<and> (snd (snd (combine (pattern_type, pattern_conf) (heuristic_type, heuristic_conf)))
            = ''Pattern-Based''
          \<longleftrightarrow> heuristic_conf < pattern_conf)"
  using assms by (auto simp: combine_def)

theorem combine_tie_break_witness:
  "combine (Some ''SSN'', 7/10) (Some ''NAME'', 7/10) = (Some ''NAME'', 7/10, ''Column Name Heuristic'')
   \<and> snd (snd (combine (None, 0) (None, 0))) = ''None''
   \<and> snd (snd (combine (Some ''SSN'', 1) (Some ''NAME'', 9/10))) = ''Pattern-Based''"
proof -
  have a: "(0::real) \<le> 7/10" and b: "(0::real) \<le> 0" and c: "(0::real) \<le> 1" and d: "(0::real) \<le> 9/10"
    by simp_all
  show ?thesis
    using combine_tie_break [OF a a, of "Some ''SSN''" "Some ''NAME''"]
      combine_tie_break [OF b b, of None None]
      combine_tie_break [OF c d, of "Some ''SSN''" "Some ''NAME''"]
    by simp
qed

subsection \<open>Uniqueness\<close>

lemma length_dropna_le: "length (dropna cs) \<le> length cs"
  by (induction cs rule: dropna.induct) auto

lemma nunique_le_length: "nunique cs \<le> length cs"
  unfolding nunique_def
  by (rule order_trans [OF length_remdups_leq length_dropna_le])

lemma set_dropna: "set (dropna cs) = {v. Some v \<in> set cs}"
  by (induction cs rule: dropna.induct) auto

lemma dropna_no_missing: "None \<notin> set cs \<Longrightarrow> map Some (dropna cs) = cs"
  by (induction cs rule: dropna.induct) auto

text \<open>A column with one present and one missing cell: the program's ratio is 1/2, the
  ratio with the missing cell counted as a value is 1.\<close>

theorem uniqueness_counts_missing_counterexample:
  "calculate_uniqueness \<lparr> name = ascii ''email'', dtype = ''object'', cells = [Some (ascii ''a@b.c''), None] \<rparr> = 1/2
   \<and> spec_uniqueness \<lparr> name = ascii ''email'', dtype = ''object'', cells = [Some (ascii ''a@b.c''), None] \<rparr> = 1"
  by (simp add: calculate_uniqueness_def spec_uniqueness_def nunique_def ascii_def)

text \<open>
  Claim C7, as amended. The uniqueness of a column is the number of distinct values
  among its present cells divided by the number of all its cells, missing ones
  included; it lies in \<open>[0,1]\<close> and is 0 for an empty column. On a column without
  missing cells it is the ratio of the specification.
\<close>

theorem uniqueness_ratio:
  "calculate_uniqueness column_data =
      (if cells column_data = [] then 0
       else real (card {v. Some v \<in> set (cells column_data)}) / real (length (cells column_data)))
   \<and> 0 \<le> calculate_uniqueness column_data
   \<and> calculate_uniqueness column_data \<le> 1
   \<and> (cells column_data = [] \<longrightarrow> calculate_uniqueness column_data = 0)
   \<and> (None \<notin> set (cells column_data) \<longrightarrow>
        calculate_uniqueness column_data = spec_uniqueness column_data)"
proof (intro conjI impI)
  show "calculate_uniqueness column_data =
      (if cells column_data = [] then 0
       else real (card {v. Some v \<in> set (cells column_data)}) / real (length (cells column_data)))"
    by (simp add: calculate_uniqueness_def nunique_def length_remdups_card_conv set_dropna)
  show "0 \<le> calculate_uniqueness column_data"
    by (simp add: calculate_uniqueness_def)
  show "calculate_uniqueness column_data \<le> 1"
    using nunique_le_length [of "cells column_data"]
    by (simp add: calculate_uniqueness_def Let_def)
  show "calculate_uniqueness column_data = 0" if "cells column_data = []"
    using that by (simp add: calculate_uniqueness_def)
  show "calculate_uniqueness column_data = spec_uniqueness column_data"
    if "None \<notin> set (cells column_data)"
  proof -
    have "card (set (dropna (cells column_data))) = card (Some ` set (dropna (cells column_data)))"
      by (simp add: card_image)
    also have "Some ` set (dropna (cells column_data)) = set (cells column_data)"
      using dropna_no_missing [OF that] by (metis set_map)
    finally show ?thesis
      by (simp add: calculate_uniqueness_def spec_uniqueness_def nunique_def
            length_remdups_card_conv)
  qed
qed

theorem uniqueness_ratio_witness:
  "calculate_uniqueness \<lparr> name = ascii ''city'', dtype = ''object'',
       cells = [Some (ascii ''Oslo''), None, Some (ascii ''Oslo''), Some (ascii ''Rome'')] \<rparr> = 1/2
   \<and> calculate_uniqueness \<lparr> name = ascii ''city'', dtype = ''object'', cells = [] \<rparr> = 0
   \<and> calculate_uniqueness \<lparr> name = ascii ''city'', dtype = ''object'', cells = [Some (ascii ''Oslo''), Some (ascii ''Rome'')] \<rparr>
       = spec_uniqueness \<lparr> name = ascii ''city'', dtype = ''object'', cells = [Some (ascii ''Oslo''), Some (ascii ''Rome'')] \<rparr>"
  using uniqueness_ratio [of "\<lparr> name = ascii ''city'', dtype = ''object'',
       cells = [Some (ascii ''Oslo''), None, Some (ascii ''Oslo''), Some (ascii ''Rome'')] \<rparr>"]
    uniqueness_ratio [of "\<lparr> name = ascii ''city'', dtype = ''object'', cells = [] \<rparr>"]
    uniqueness_ratio [of "\<lparr> name = ascii ''city'', dtype = ''object'', cells = [Some (ascii ''Oslo''), Some (ascii ''Rome'')] \<rparr>"]
  by (simp add: calculate_uniqueness_def nunique_def ascii_def)

subsection \<open>The order of the keyword pairs\<close>

lemma sorted_items_descending:
  "sorted_wrt (\<lambda>a b. length (snd b) \<le> length (snd a)) sorted_items"
proof -
  have "sorted (map (\<lambda>x. - int (length (snd x))) sorted_items)"
    unfolding sorted_items_def by (rule sorted_sort_key)
  then show ?thesis by (simp add: sorted_map)
qed

lemma set_keyword_items:
  "set keyword_items =
     {(pii_type, keyword). \<exists>keywords. (pii_type, keywords) \<in> set column_keywords
                                     \<and> keyword \<in> set keywords}"
  unfolding keyword_items_def by auto

lemma keyword_matches_iff:
  "keyword_matches n keyword \<longleftrightarrow> keyword = n \<or> delimited_token keyword n"
  using edge_segment_is_whole_or_delimited [of keyword n]
  by (auto simp: keyword_matches_def)

lemma scan_items_first_match:
  "scan_items n items =
     (case find (\<lambda>item. snd item = n \<or> delimited_token (snd item) n) items of
        None \<Rightarrow> (None, 0)
      | Some item \<Rightarrow> (Some (fst item), if snd item = n then 9/10 else 8/10))"
proof (cases "find (\<lambda>item. snd item = n \<or> delimited_token (snd item) n) items")
  case None
  then show ?thesis by (simp add: scan_items_find keyword_matches_iff)
next
  case (Some item)
  then have "snd item = n \<or> delimited_token (snd item) n" by (auto simp: find_Some_iff)
  then have "tier_confidence n (snd item) = (if snd item = n then 9/10 else 8/10)"
    by (auto simp: tier_confidence_def)
  with Some show ?thesis by (simp add: scan_items_find keyword_matches_iff)
qed

text \<open>The claim as stated fails in two ways. The keyword "phone" is the last
  underscore-delimited segment of "home_phone", and the confidence is 0.8, not 0.7. The
  name "blood_type" is itself a keyword of the library, and the detector returns no
  detection for it, because the exclusion list catches \<open>_type\<close> first.\<close>

theorem segment_tier_counterexample:
  "edge_segment (ascii ''phone'') (ascii ''home_phone'')
   \<and> detect_column_name_heuristic plain_ucd (ascii ''home_phone'') = (Some ''PHONE'', 8/10)
   \<and> snd (detect_column_name_heuristic plain_ucd (ascii ''home_phone'')) \<noteq> 7/10
   \<and> (''MEDICAL'', ascii ''blood_type'') \<in> set sorted_items
   \<and> detect_column_name_heuristic plain_ucd (ascii ''blood_type'') = (None, 0)"
  by code_simp

text \<open>
  Claim C5, as amended. Let \<open>n\<close> be the normalized column name: the lower-cased name
  without its leading and trailing whitespace. When the exclusion list does not catch
  \<open>n\<close>, the name heuristic goes through all (PII type, keyword) pairs of the keyword
  library in descending order of keyword length and returns the first pair whose
  keyword is the whole of \<open>n\<close> or a delimited token of it (\<open>_keyword\<close> or \<open>keyword_\<close>),
  with confidence 0.9 in the first case and 0.8 in the second; with no such pair it
  returns no detection. A keyword that is the first or last underscore-delimited
  segment of \<open>n\<close> is always one of the two, so 0.7 is never returned. Lower-casing maps
  \<open>A\<close> to \<open>Z\<close> onto \<open>a\<close> to \<open>z\<close> in an ASCII name. For "employee_id" the first matching
  pair is the ID keyword "employee_id", so the result is ID with confidence 0.9.
\<close>

theorem longest_keyword_first:
  assumes "trimmed_of n (lower u column_name)"
    and "\<not> (\<exists>keyword \<in> set non_pii_keywords. excluded_by n keyword)"
  shows "detect_column_name_heuristic u column_name =
        (case find (\<lambda>item. snd item = n \<or> delimited_token (snd item) n) sorted_items of
           None \<Rightarrow> (None, 0)
         | Some item \<Rightarrow> (Some (fst item), if snd item = n then 9/10 else 8/10))
   \<and> (\<forall>keyword. edge_segment keyword n \<longrightarrow> keyword = n \<or> delimited_token keyword n)
   \<and> ((\<forall>c \<in> set column_name. c < 128) \<longrightarrow>
        lower u column_name = map (\<lambda>c. if 65 \<le> c \<and> c \<le> 90 then c + 32 else c) column_name)
   \<and> set sorted_items =
       {(pii_type, keyword). \<exists>keywords. (pii_type, keywords) \<in> set column_keywords
                                       \<and> keyword \<in> set keywords}
   \<and> length sorted_items = length keyword_items
   \<and> sorted_wrt (\<lambda>a b. length (snd b) \<le> length (snd a)) sorted_items
   \<and> find (\<lambda>item. snd item = ascii ''employee_id''
                   \<or> delimited_token (snd item) (ascii ''employee_id'')) sorted_items
       = Some (''ID'', ascii ''employee_id'')
   \<and> detect_column_name_heuristic u (ascii ''employee_id'') = (Some ''ID'', 9/10)"
proof (intro conjI impI allI)
  have n: "strip (lower u column_name) = n"
    using assms(1) by (rule strip_trimmed)
  from assms(2) have "\<not> list_ex (excluded_by n) non_pii_keywords"
    by (simp add: list_ex_iff)
  then show "detect_column_name_heuristic u column_name =
        (case find (\<lambda>item. snd item = n \<or> delimited_token (snd item) n) sorted_items of
           None \<Rightarrow> (None, 0)
         | Some item \<Rightarrow> (Some (fst item), if snd item = n then 9/10 else 8/10))"
    by (simp add: detect_column_name_heuristic_def n scan_items_first_match)
next
  fix keyword
  assume "edge_segment keyword n"
  then show "keyword = n \<or> delimited_token keyword n"
    by (rule edge_segment_is_whole_or_delimited)
next
  assume "\<forall>c \<in> set column_name. c < 128"
  then show "lower u column_name
      = map (\<lambda>c. if 65 \<le> c \<and> c \<le> 90 then c + 32 else c) column_name"
    by (rule lower_ascii_name)
next
  show "set sorted_items =
       {(pii_type, keyword). \<exists>keywords. (pii_type, keywords) \<in> set column_keywords
                                       \<and> keyword \<in> set keywords}"
    by (simp add: sorted_items_def set_keyword_items)
next
  show "length sorted_items = length keyword_items"
    by (simp add: sorted_items_def)
next
  show "sorted_wrt (\<lambda>a b. length (snd b) \<le> length (snd a)) sorted_items"
    by (rule sorted_items_descending)
next
  show "find (\<lambda>item. snd item = ascii ''employee_id''
                   \<or> delimited_token (snd item) (ascii ''employee_id'')) sorted_items
       = Some (''ID'', ascii ''employee_id'')"
    by code_simp
next
  show "detect_column_name_heuristic u (ascii ''employee_id'') = (Some ''ID'', 9/10)"
    by code_simp
qed

text \<open>Two names that need trimming and lower-casing: "Email" between a no-break space
  and a space, matched whole, and " Home_Phone", matched by the token "phone".\<close>

theorem longest_keyword_first_witness:
  "trimmed_of (ascii ''email'') (lower plain_ucd (0xA0 # ascii ''Email ''))
   \<and> \<not> (\<exists>keyword \<in> set non_pii_keywords. excluded_by (ascii ''email'') keyword)
   \<and> detect_column_name_heuristic plain_ucd (0xA0 # ascii ''Email '') = (Some ''EMAIL'', 9/10)
   \<and> trimmed_of (ascii ''home_phone'') (lower plain_ucd (ascii '' Home_Phone''))
   \<and> \<not> (\<exists>keyword \<in> set non_pii_keywords. excluded_by (ascii ''home_phone'') keyword)
   \<and> detect_column_name_heuristic plain_ucd (ascii '' Home_Phone'') = (Some ''PHONE'', 8/10)"
proof -
  have t1: "trimmed_of (ascii ''email'') (lower plain_ucd (0xA0 # ascii ''Email ''))"
    unfolding trimmed_of_def
    by (intro exI [of _ "[0xA0]"] exI [of _ "[32]"]) code_simp
  have e1: "\<not> (\<exists>keyword \<in> set non_pii_keywords. excluded_by (ascii ''email'') keyword)"
    by code_simp
  have f1: "find (\<lambda>item. snd item = ascii ''email'' \<or> delimited_token (snd item) (ascii ''email''))
              sorted_items = Some (''EMAIL'', ascii ''email'')"
    by code_simp
  have t2: "trimmed_of (ascii ''home_phone'') (lower plain_ucd (ascii '' Home_Phone''))"
    unfolding trimmed_of_def
    by (intro exI [of _ "[32]"] exI [of _ "[]"]) code_simp
  have e2: "\<not> (\<exists>keyword \<in> set non_pii_keywords. excluded_by (ascii ''home_phone'') keyword)"
    by code_simp
  have f2: "find (\<lambda>item. snd item = ascii ''home_phone''
                        \<or> delimited_token (snd item) (ascii ''home_phone''))
              sorted_items = Some (''PHONE'', ascii ''phone'')"
    by code_simp
  have ne: "ascii ''phone'' \<noteq> ascii ''home_phone''" by code_simp
  have r1: "detect_column_name_heuristic plain_ucd (0xA0 # ascii ''Email '') = (Some ''EMAIL'', 9/10)"
    using longest_keyword_first [OF t1 e1] unfolding f1 by simp
  have r2: "detect_column_name_heuristic plain_ucd (ascii '' Home_Phone'') = (Some ''PHONE'', 8/10)"
    using longest_keyword_first [OF t2 e2] ne unfolding f2 by simp
  from t1 e1 r1 t2 e2 r2 show ?thesis by blast
qed

subsection \<open>The column "full_name"\<close>

text \<open>The claim as stated gives confidence 0.8 through the keyword "name"; the first
  matching pair is (NAME, "full_name"), an exact match with confidence 0.9.\<close>

theorem full_name_confidence_counterexample:
  "detect_column_name_heuristic plain_ucd (ascii ''full_name'') = (Some ''NAME'', 9/10)
   \<and> snd (detect_column_name_heuristic plain_ucd (ascii ''full_name'')) \<noteq> 8/10
   \<and> find (\<lambda>item. match_item (ascii ''full_name'') item \<noteq> None) sorted_items
       = Some (''NAME'', ascii ''full_name'')"
  by code_simp

lemma heuristic_full_name:
  "detect_column_name_heuristic u (ascii ''full_name'') = (Some ''NAME'', 9/10)"
  by code_simp

text \<open>
  Claim C6, as amended. For a column named "full_name" on which the pattern detector
  detects nothing, the name heuristic returns NAME with confidence 0.9 (the keyword
  "full_name" is in the library and equals the whole name), and the analyzer emits a
  row for the column with type NAME, method Column Name Heuristic, confidence 0.9 and
  impact 3.
\<close>

theorem full_name_finding:
  assumes "name col = ascii ''full_name''" and "detect_pattern_based re col = (None, 0)"
  shows "detect_column_name_heuristic u (name col) = (Some ''NAME'', 9/10)
     \<and> (\<exists>row. analyze_column u re col = Some row
            \<and> Column_Name row = ascii ''full_name''
            \<and> PII_Type row = ''NAME''
            \<and> Detection_Method row = ''Column Name Heuristic''
            \<and> Confidence row = 9/10
            \<and> Impact row = 3)"
  using assms
  by (simp add: heuristic_full_name analyze_column_def combine_def make_finding_def Let_def
      dict_get_def impact_scores_def)

theorem full_name_finding_witness:
  "name \<lparr> name = ascii ''full_name'', dtype = ''object'',
          cells = [Some (ascii ''Ada Lovelace''), None, Some (ascii ''Alan Turing'')] \<rparr>
     = ascii ''full_name''
   \<and> detect_pattern_based (\<lambda>pattern s. Some False)
        \<lparr> name = ascii ''full_name'', dtype = ''object'',
          cells = [Some (ascii ''Ada Lovelace''), None, Some (ascii ''Alan Turing'')] \<rparr>
     = (None, 0)
   \<and> (\<exists>row. analyze_column plain_ucd (\<lambda>pattern s. Some False)
               \<lparr> name = ascii ''full_name'', dtype = ''object'',
                 cells = [Some (ascii ''Ada Lovelace''), None, Some (ascii ''Alan Turing'')] \<rparr>
               = Some row
            \<and> PII_Type row = ''NAME''
            \<and> Detection_Method row = ''Column Name Heuristic''
            \<and> Confidence row = 9/10
            \<and> Impact row = 3)"
proof -
  let ?col = "\<lparr> name = ascii ''full_name'', dtype = ''object'',
          cells = [Some (ascii ''Ada Lovelace''), None, Some (ascii ''Alan Turing'')] \<rparr>"
  have a: "name ?col = ascii ''full_name''" by simp
  have b: "detect_pattern_based (\<lambda>pattern s. Some False) ?col = (None, 0)"
    by code_simp
  from full_name_finding [OF a b, of plain_ucd] a b show ?thesis by blast
qed

subsection \<open>The pattern detector\<close>

lemma update_fresh: "k \<notin> fst ` set al \<Longrightarrow> AList.update k v al = al @ [(k, v)]"
  by (induction al) auto

lemma fst_accepted_of: "fst ` set (accepted_of re sd ps) \<subseteq> fst ` set ps"
  unfolding accepted_of_def by force

lemma test_patterns_append:
  assumes "string_data \<noteq> []"
  shows "distinct (map fst patterns) \<Longrightarrow> fst ` set acc \<inter> fst ` set patterns = {} \<Longrightarrow>
         test_patterns re string_data patterns acc = acc @ accepted_of re string_data patterns"
proof (induction patterns arbitrary: acc)
  case Nil
  then show ?case by (simp add: accepted_of_def)
next
  case (Cons p patterns)
  obtain pii_type pattern where p: "p = (pii_type, pattern)" by (cases p)
  from Cons.prems p have fresh: "pii_type \<notin> fst ` set acc"
    and dist: "distinct (map fst patterns)"
    and notin: "pii_type \<notin> fst ` set patterns"
    and disj: "fst ` set acc \<inter> fst ` set patterns = {}"
    by auto
  have step: "accepted_of re string_data (p # patterns) =
      (if match_ratio re string_data pattern > 3/10 \<and> length (hd string_data) \<le> 200
       then (pii_type, match_ratio re string_data pattern) # accepted_of re string_data patterns
       else accepted_of re string_data patterns)"
    by (simp add: accepted_of_def p)
  show ?case
  proof (cases "contains_sum re pattern string_data")
    case None
    then have "match_ratio re string_data pattern = 0" by (simp add: match_ratio_def)
    with None step p Cons.IH [OF dist disj] show ?thesis by simp
  next
    case (Some matches)
    then have mr: "match_ratio re string_data pattern = real matches / real (length string_data)"
      by (simp add: match_ratio_def)
    show ?thesis
    proof (cases "match_ratio re string_data pattern > 3/10 \<and> length (hd string_data) \<le> 200")
      case True
      have disj': "fst ` set (acc @ [(pii_type, match_ratio re string_data pattern)])
                     \<inter> fst ` set patterns = {}"
        using disj notin by auto
      from True Some mr assms p fresh step Cons.IH [OF dist disj'] show ?thesis
        by (simp add: update_fresh Let_def)
    next
      case False
      with Some mr assms p step Cons.IH [OF dist disj] show ?thesis
        by (auto simp: Let_def)
    qed
  qed
qed

lemma distinct_pii_patterns: "distinct (map fst pii_patterns)"
  by (simp add: pii_patterns_def)

lemma test_patterns_candidates:
  "string_data \<noteq> [] \<Longrightarrow> test_patterns re string_data pii_patterns [] = candidates re string_data"
  using test_patterns_append [of string_data pii_patterns "[]" re]
  by (simp add: distinct_pii_patterns accepted_of_def candidates_def)

lemma distinct_candidates: "distinct (map fst (candidates re sd))"
proof -
  have "map fst (candidates re sd) =
      map fst (filter (\<lambda>(pii_type, ratio). ratio > 3/10 \<and> length (hd sd) \<le> 200)
       (map (\<lambda>(pii_type, pattern). (pii_type, match_ratio re sd pattern)) pii_patterns))"
    by (simp add: candidates_def)
  moreover have "distinct (map fst (map (\<lambda>(pii_type, pattern). (pii_type, match_ratio re sd pattern)) pii_patterns))"
    using distinct_pii_patterns by (simp add: comp_def case_prod_beta)
  ultimately show ?thesis
    by (simp add: distinct_map_filter)
qed

lemma scan_priority_find:
  "scan_priority pm order =
     (case find (\<lambda>t. \<exists>r. map_of pm t = Some r \<and> r > 1/2) order of
        None \<Rightarrow> None
      | Some t \<Rightarrow> Some (Some t, the (map_of pm t)))"
  by (induction order) (auto split: option.splits)

lemma max_item_mem: "max_item best xs \<in> set (best # xs)"
  by (induction xs arbitrary: best) auto

lemma max_item_ge_start: "snd best \<le> snd (max_item best xs)"
proof (induction xs arbitrary: best)
  case Nil
  then show ?case by simp
next
  case (Cons y ys)
  show ?case
    using Cons.IH [of y] Cons.IH [of best] by auto
qed

lemma max_item_ge: "x \<in> set (best # xs) \<Longrightarrow> snd x \<le> snd (max_item best xs)"
proof (induction xs arbitrary: best)
  case Nil
  then show ?case by simp
next
  case (Cons y ys)
  from Cons.prems consider "x = best" | "x = y" | "x \<in> set ys" by auto
  then show ?case
  proof cases
    case 1
    then show ?thesis using max_item_ge_start [of best "y # ys"] by simp
  next
    case 2
    then show ?thesis using max_item_ge_start [of y ys] max_item_ge_start [of best ys] by auto
  next
    case 3
    then show ?thesis using Cons.IH [of y] Cons.IH [of best] by auto
  qed
qed

lemma contains_sum_le: "contains_sum re pattern sd = Some m \<Longrightarrow> m \<le> length sd"
  by (auto simp: contains_sum_def split: if_splits)

lemma match_ratio_range: "0 \<le> match_ratio re sd pattern \<and> match_ratio re sd pattern \<le> 1"
proof (cases "contains_sum re pattern sd")
  case None
  then show ?thesis by (simp add: match_ratio_def)
next
  case (Some m)
  then have "m \<le> length sd" by (rule contains_sum_le)
  with Some show ?thesis
    by (cases "sd = []") (simp_all add: match_ratio_def divide_le_eq)
qed

lemma candidates_mem:
  "(t, r) \<in> set (candidates re sd) \<longleftrightarrow>
     (\<exists>pattern. (t, pattern) \<in> set pii_patterns \<and> r = match_ratio re sd pattern
                \<and> r > 3/10 \<and> length (hd sd) \<le> 200)"
  unfolding candidates_def by auto

lemma qualifying_iff:
  assumes "distinct (map fst cands)"
  shows "t \<in> set (qualifying cands) \<longleftrightarrow> (\<exists>r. map_of cands t = Some r \<and> r > 1/2)"
  using assms by (auto simp: qualifying_def image_iff)

lemma scan_priority_qualifying:
  assumes "distinct (map fst cands)"
  shows "scan_priority cands order =
     (case find (\<lambda>t. t \<in> set (qualifying cands)) order of
        None \<Rightarrow> None
      | Some t \<Rightarrow> Some (Some t, the (map_of cands t)))"
  by (simp add: scan_priority_find qualifying_iff [OF assms])

lemma pii_types_in_priority_order: "fst ` set pii_patterns \<subseteq> set priority_order"
  by (simp add: pii_patterns_def priority_order_def)

lemma pii_types_nonempty: "t \<in> fst ` set pii_patterns \<Longrightarrow> t \<noteq> []"
  by (auto simp: pii_patterns_def)

lemma detect_pattern_based_textual:
  assumes "dtype column_data \<in> set [''object'', ''string'']" and "dropna (cells column_data) \<noteq> []"
  shows "detect_pattern_based re column_data =
     (if mean_len (dropna (cells column_data)) > 500 then (None, 0)
      else (case candidates re (dropna (cells column_data)) of
              [] \<Rightarrow> (None, 0)
            | first # others \<Rightarrow>
                (case scan_priority (first # others) priority_order of
                   Some found \<Rightarrow> found
                 | None \<Rightarrow>
                     (let best_match = max_item first others in
                      if snd best_match > 1/2 then (Some (fst best_match), snd best_match)
                      else (None, 0)))))"
  using assms
  by (simp add: detect_pattern_based_def Let_def test_patterns_candidates)

lemma pattern_selection:
  assumes "dtype column_data \<in> set [''object'', ''string'']"
    and "dropna (cells column_data) \<noteq> []"
  shows
    "(mean_len (dropna (cells column_data)) > 500 \<longrightarrow>
        detect_pattern_based re column_data = (None, 0))
   \<and> (\<not> mean_len (dropna (cells column_data)) > 500 \<longrightarrow>
        (case find (\<lambda>t. t \<in> set (qualifying (candidates re (dropna (cells column_data)))))
                priority_order of
           Some t \<Rightarrow>
             (\<exists>r. (t, r) \<in> set (candidates re (dropna (cells column_data)))
                \<and> detect_pattern_based re column_data = (Some t, r))
         | None \<Rightarrow>
             (if \<exists>(t, r) \<in> set (candidates re (dropna (cells column_data))). r > 1/2
              then \<exists>(t, r) \<in> set (candidates re (dropna (cells column_data))).
                     detect_pattern_based re column_data = (Some t, r)
                     \<and> (\<forall>(t', r') \<in> set (candidates re (dropna (cells column_data))). r' \<le> r)
              else detect_pattern_based re column_data = (None, 0))))
   \<and> (\<forall>t r. (t, r) \<in> set (candidates re (dropna (cells column_data))) \<longleftrightarrow>
          (\<exists>pattern. (t, pattern) \<in> set pii_patterns
              \<and> r = match_ratio re (dropna (cells column_data)) pattern
              \<and> r > 3/10 \<and> length (hd (dropna (cells column_data))) \<le> 200))"
proof (intro conjI impI allI)
  let ?sd = "dropna (cells column_data)"
  let ?C = "candidates re ?sd"
  note eq = detect_pattern_based_textual [OF assms, of re]
  show "detect_pattern_based re column_data = (None, 0)" if "mean_len ?sd > 500"
    using that by (simp add: eq)
  show "(t, r) \<in> set ?C \<longleftrightarrow>
          (\<exists>pattern. (t, pattern) \<in> set pii_patterns \<and> r = match_ratio re ?sd pattern
              \<and> r > 3/10 \<and> length (hd ?sd) \<le> 200)" for t r
    by (rule candidates_mem)
  show "case find (\<lambda>t. t \<in> set (qualifying ?C)) priority_order of
           Some t \<Rightarrow> (\<exists>r. (t, r) \<in> set ?C \<and> detect_pattern_based re column_data = (Some t, r))
         | None \<Rightarrow>
             (if \<exists>(t, r) \<in> set ?C. r > 1/2
              then \<exists>(t, r) \<in> set ?C.
                     detect_pattern_based re column_data = (Some t, r)
                     \<and> (\<forall>(t', r') \<in> set ?C. r' \<le> r)
              else detect_pattern_based re column_data = (None, 0))"
    if short: "\<not> mean_len ?sd > 500"
  proof (cases "find (\<lambda>t. t \<in> set (qualifying ?C)) priority_order")
    case (Some t)
    then have "t \<in> set (qualifying ?C)" by (auto simp: find_Some_iff)
    then obtain r where r: "map_of ?C t = Some r" "r > 1/2"
      using qualifying_iff [OF distinct_candidates] by blast
    then have mem: "(t, r) \<in> set ?C" by (auto dest: map_of_SomeD)
    then obtain first others where C: "?C = first # others" by (cases ?C) auto
    have "scan_priority ?C priority_order = Some (Some t, r)"
      using Some r by (simp add: scan_priority_qualifying [OF distinct_candidates])
    with C short have "detect_pattern_based re column_data = (Some t, r)"
      by (simp add: eq)
    with mem Some show ?thesis by auto
  next
    case None
    then have sp: "scan_priority ?C priority_order = None"
      by (simp add: scan_priority_qualifying [OF distinct_candidates])
    show ?thesis
    proof (cases ?C)
      case Nil
      with short None show ?thesis by (simp add: eq)
    next
      case (Cons first others)
      let ?best = "max_item first others"
      have best_mem: "?best \<in> set ?C" using max_item_mem [of first others] Cons by simp
      have best_ge: "snd x \<le> snd ?best" if "x \<in> set ?C" for x
        using max_item_ge [of x first others] that Cons by simp
      show ?thesis
      proof (cases "snd ?best > 1/2")
        case True
        have d: "detect_pattern_based re column_data = (Some (fst ?best), snd ?best)"
          using True sp Cons short by (simp add: eq Let_def)
        have ex: "\<exists>(t, r) \<in> set ?C. r > 1/2"
          using best_mem True by (auto intro!: bexI [of _ ?best] simp: case_prod_beta)
        have "\<exists>(t, r) \<in> set ?C. detect_pattern_based re column_data = (Some t, r)
                     \<and> (\<forall>(t', r') \<in> set ?C. r' \<le> r)"
          using best_mem d best_ge
          by (intro bexI [of _ ?best]) (auto simp: case_prod_beta)
        then show ?thesis by (simp only: None option.case if_P [OF ex])
      next
        case False
        have d: "detect_pattern_based re column_data = (None, 0)"
          using False sp Cons short by (simp add: eq Let_def)
        have nex: "\<not> (\<exists>(t, r) \<in> set ?C. r > 1/2)"
          using best_ge False by (fastforce simp: case_prod_beta)
        from d show ?thesis by (simp only: None option.case if_not_P [OF nex])
      qed
    qed
  qed
qed


text \<open>Three columns, with the engine that finds the SSN pattern in the values ending
  with a social security number. In the first, one value starts with 150 letters
  \<open>U+00E9\<close>, is 162 characters long, and the detector returns SSN with ratio 1. In the
  second, the only value is 611 characters long: the pattern is found in it, the mean
  length exceeds 500, and the detector returns no detection. In the third, the only
  value is 261 characters long: the mean is below 500, the first value is longer than
  200 characters, no pattern is a candidate, and the detector returns no detection.\<close>

lemma ex_long_lengths:
  "length (replicate 150 (0xE9 :: codepoint) @ ascii '' 123-45-6789'') = 162"
  "length (replicate 600 (0x20 :: codepoint) @ ascii ''123-45-6789'') = 611"
  "length (replicate 250 (0x20 :: codepoint) @ ascii ''123-45-6789'') = 261"
  by (simp_all add: ascii_def)



text \<open>Every pattern type is in the priority order, so the fall-back on the best match
  never returns a type.\<close>

lemma no_qualifying_no_candidate:
  assumes "find (\<lambda>t. t \<in> set (qualifying (candidates re sd))) priority_order = None"
  shows "\<not> (\<exists>(t, r) \<in> set (candidates re sd). r > 1/2)"
proof
  assume "\<exists>(t, r) \<in> set (candidates re sd). r > 1/2"
  then obtain t r where mem: "(t, r) \<in> set (candidates re sd)" and r: "r > 1/2" by auto
  then have q: "t \<in> set (qualifying (candidates re sd))"
    by (force simp: qualifying_def)
  from mem have "t \<in> fst ` set pii_patterns" by (force simp: candidates_mem)
  then have "t \<in> set priority_order" using pii_types_in_priority_order by blast
  with q assms show False by (auto simp: find_None_iff)
qed

lemma pattern_result:
  "detect_pattern_based re column_data = (None, 0)
   \<or> (\<exists>t r. detect_pattern_based re column_data = (Some t, r)
          \<and> t \<noteq> [] \<and> 1/2 < r \<and> r \<le> 1)"
proof (cases "dtype column_data \<in> set [''object'', ''string''] \<and> dropna (cells column_data) \<noteq> []")
  case False
  then show ?thesis by (auto simp: detect_pattern_based_def)
next
  case True
  let ?sd = "dropna (cells column_data)"
  let ?C = "candidates re ?sd"
  from True have a: "dtype column_data \<in> set [''object'', ''string'']" and b: "?sd \<noteq> []"
    by simp_all
  note sel = pattern_selection [OF a b, of re]
  have good: "t \<noteq> [] \<and> 1/2 < r \<and> r \<le> 1" if "(t, r) \<in> set ?C" "r > 1/2" for t r
  proof -
    from that(1) obtain pattern where "(t, pattern) \<in> set pii_patterns"
      "r = match_ratio re ?sd pattern" by (auto simp: candidates_mem)
    then show ?thesis
      using that(2) match_ratio_range [of re ?sd pattern] pii_types_nonempty [of t] by force
  qed
  show ?thesis
  proof (cases "mean_len ?sd > 500")
    case True
    with sel show ?thesis by simp
  next
    case False
    show ?thesis
    proof (cases "find (\<lambda>t. t \<in> set (qualifying ?C)) priority_order")
      case (Some t)
      with sel False obtain r where r: "(t, r) \<in> set ?C"
        "detect_pattern_based re column_data = (Some t, r)" by auto
      from Some have "t \<in> set (qualifying ?C)" by (auto simp: find_Some_iff)
      then obtain r' where "map_of ?C t = Some r'" "r' > 1/2"
        using qualifying_iff [OF distinct_candidates] by blast
      moreover have "map_of ?C t = Some r"
        using r(1) distinct_candidates by simp
      ultimately have "r > 1/2" by simp
      with good [OF r(1)] r(2) show ?thesis by simp
    next
      case None
      note nex = no_qualifying_no_candidate [OF None]
      from sel False
      have "case find (\<lambda>t. t \<in> set (qualifying ?C)) priority_order of
           Some t \<Rightarrow> (\<exists>r. (t, r) \<in> set ?C \<and> detect_pattern_based re column_data = (Some t, r))
         | None \<Rightarrow>
             (if \<exists>(t, r) \<in> set ?C. r > 1/2
              then \<exists>(t, r) \<in> set ?C.
                     detect_pattern_based re column_data = (Some t, r)
                     \<and> (\<forall>(t', r') \<in> set ?C. r' \<le> r)
              else detect_pattern_based re column_data = (None, 0))"
        by blast
      then have "detect_pattern_based re column_data = (None, 0)"
        by (simp only: None option.case if_not_P [OF nex])
      then show ?thesis by simp
    qed
  qed
qed

subsection \<open>What the two detectors can return\<close>

lemma keyword_types_nonempty: "(t, keyword) \<in> set sorted_items \<Longrightarrow> t \<noteq> []"
proof -
  assume "(t, keyword) \<in> set sorted_items"
  then have "(t, keyword) \<in> set keyword_items" by (simp add: sorted_items_def)
  then have "t \<in> fst ` set column_keywords" by (force simp: set_keyword_items)
  then show "t \<noteq> []" by (auto simp: column_keywords_def)
qed

lemma tier_confidence_values: "tier_confidence n keyword \<in> {7/10, 8/10, 9/10}"
  by (simp add: tier_confidence_def)

lemma heuristic_result:
  "detect_column_name_heuristic u column_name = (None, 0)
   \<or> (\<exists>t c. detect_column_name_heuristic u column_name = (Some t, c)
          \<and> t \<noteq> [] \<and> c \<in> {7/10, 8/10, 9/10})"
proof (cases "list_ex (excluded_by (strip (lower u column_name))) non_pii_keywords")
  case True
  then show ?thesis by (simp add: detect_column_name_heuristic_def)
next
  case False
  let ?n = "strip (lower u column_name)"
  from False have eq: "detect_column_name_heuristic u column_name =
      (case find (\<lambda>item. keyword_matches ?n (snd item)) sorted_items of
         None \<Rightarrow> (None, 0)
       | Some item \<Rightarrow> (Some (fst item), tier_confidence ?n (snd item)))"
    by (simp add: detect_column_name_heuristic_def scan_items_find Let_def)
  show ?thesis
  proof (cases "find (\<lambda>item. keyword_matches ?n (snd item)) sorted_items")
    case None
    with eq show ?thesis by simp
  next
    case (Some item)
    then have "item \<in> set sorted_items" by (auto simp: find_Some_iff)
    then have "fst item \<noteq> []" using keyword_types_nonempty [of "fst item" "snd item"] by simp
    with eq Some tier_confidence_values [of ?n "snd item"] show ?thesis
      by (simp only: option.case) blast
  qed
qed

subsection \<open>The analyzer\<close>

lemma analyze_loop_map_filter:
  "analyze_loop u re df results = results @ List.map_filter (analyze_column u re) df"
  by (induction df arbitrary: results) (auto simp: List.map_filter_simps split: option.splits)

lemma analyze_dataset_map_filter:
  "analyze_dataset u re df = List.map_filter (analyze_column u re) df"
  by (simp add: analyze_dataset_def analyze_loop_map_filter)

lemma analyze_column_cases:
  fixes u re col
  defines "p \<equiv> detect_pattern_based re col"
    and "h \<equiv> detect_column_name_heuristic u (name col)"
  shows "(if snd p > snd h
          then \<exists>t. fst p = Some t \<and> t \<noteq> [] \<and> 1/2 < snd p \<and> snd p \<le> 1
                 \<and> analyze_column u re col = Some (make_finding col t (snd p) ''Pattern-Based'')
          else if snd h > 0
          then \<exists>t. fst h = Some t \<and> t \<noteq> [] \<and> snd h \<in> {7/10, 8/10, 9/10}
                 \<and> analyze_column u re col = Some (make_finding col t (snd h) ''Column Name Heuristic'')
          else analyze_column u re col = None)"
proof -
  note pr = pattern_result [of re col, folded p_def]
  note hr = heuristic_result [of u "name col", folded h_def]
  have h0: "0 \<le> snd h" using hr by auto
  show ?thesis
  proof (cases "snd p > snd h")
    case True
    with h0 have "snd p > 0" by simp
    with pr obtain t r where t: "p = (Some t, r)" "t \<noteq> []" "1/2 < r" "r \<le> 1" by auto
    with True have "analyze_column u re col = Some (make_finding col t (snd p) ''Pattern-Based'')"
      by (simp add: analyze_column_def combine_def p_def [symmetric] h_def [symmetric])
    with True t show ?thesis by simp
  next
    case False
    show ?thesis
    proof (cases "snd h > 0")
      case True
      with hr obtain t c where t: "h = (Some t, c)" "t \<noteq> []" "c \<in> {7/10, 8/10, 9/10}" by auto
      with True False
      have "analyze_column u re col = Some (make_finding col t (snd h) ''Column Name Heuristic'')"
        by (simp add: analyze_column_def combine_def p_def [symmetric] h_def [symmetric])
      with True False t show ?thesis by simp
    next
      case False2: False
      with False have "analyze_column u re col = None"
        by (simp add: analyze_column_def combine_def p_def [symmetric] h_def [symmetric])
      with False False2 show ?thesis by simp
    qed
  qed
qed

lemma set_map_filter: "set (List.map_filter f xs) = {y. \<exists>x \<in> set xs. f x = Some y}"
  by (induction xs) (auto simp: List.map_filter_simps split: option.splits)

lemma set_analyze_dataset:
  "row \<in> set (analyze_dataset u re df) \<longleftrightarrow> (\<exists>col \<in> set df. analyze_column u re col = Some row)"
  by (simp add: analyze_dataset_map_filter set_map_filter)

text \<open>Three columns for the examples below: social security numbers under the name
  "ssn", names under "full_name", and labels under "category".\<close>

lemma ex_ssn_pattern:
  "detect_pattern_based ssn_engine
     \<lparr> name = ascii ''ssn'', dtype = ''object'',
       cells = [Some (ascii ''123-45-6789''), None, Some (ascii ''987-65-4321'')] \<rparr> = (Some ''SSN'', 1)"
  by code_simp

lemma ex_ssn_heuristic: "detect_column_name_heuristic u (ascii ''ssn'') = (Some ''SSN'', 9/10)"
  by code_simp

lemma ex_names_pattern:
  "detect_pattern_based ssn_engine
     \<lparr> name = ascii ''full_name'', dtype = ''object'',
       cells = [Some (ascii ''Ada Lovelace''), Some (ascii ''Alan Turing''), Some (ascii ''Ada Lovelace'')] \<rparr> = (None, 0)"
  by code_simp

lemma ex_category_pattern:
  "detect_pattern_based ssn_engine
     \<lparr> name = ascii ''category'', dtype = ''object'',
       cells = [Some (ascii ''A''), Some (ascii ''B''), Some (ascii ''A'')] \<rparr> = (None, 0)"
  by code_simp

lemma ex_category_heuristic: "detect_column_name_heuristic u (ascii ''category'') = (None, 0)"
  by code_simp

lemma ex_ssn_row:
  "analyze_column plain_ucd ssn_engine
     \<lparr> name = ascii ''ssn'', dtype = ''object'',
       cells = [Some (ascii ''123-45-6789''), None, Some (ascii ''987-65-4321'')] \<rparr>
   = Some (make_finding \<lparr> name = ascii ''ssn'', dtype = ''object'',
       cells = [Some (ascii ''123-45-6789''), None, Some (ascii ''987-65-4321'')] \<rparr> ''SSN'' 1 ''Pattern-Based'')"
  unfolding analyze_column_def ex_ssn_pattern
  by (simp add: combine_def ex_ssn_heuristic)

text \<open>
  Claim C1. For every column, the analyzer combines the two detections as follows: if
  the pattern confidence is strictly greater than the heuristic confidence, the pattern
  type and confidence are adopted with method Pattern-Based; otherwise, if the heuristic
  confidence is greater than 0, the heuristic type and confidence are adopted with
  method Column Name Heuristic; otherwise the column gets no row. The result is the
  list of the rows of the flagged columns, in column order.
\<close>

theorem reconciliation:
  "analyze_dataset u re df = List.map_filter (analyze_column u re) df
   \<and> (if snd (detect_pattern_based re col) > snd (detect_column_name_heuristic u (name col))
      then \<exists>t. fst (detect_pattern_based re col) = Some t
             \<and> analyze_column u re col =
                 Some (make_finding col t (snd (detect_pattern_based re col)) ''Pattern-Based'')
      else if snd (detect_column_name_heuristic u (name col)) > 0
      then \<exists>t. fst (detect_column_name_heuristic u (name col)) = Some t
             \<and> analyze_column u re col =
                 Some (make_finding col t (snd (detect_column_name_heuristic u (name col)))
                         ''Column Name Heuristic'')
      else analyze_column u re col = None)"
proof
  show "analyze_dataset u re df = List.map_filter (analyze_column u re) df"
    by (rule analyze_dataset_map_filter)
next
  let ?p = "detect_pattern_based re col" and ?h = "detect_column_name_heuristic u (name col)"
  note c = analyze_column_cases [where u = u and re = re and col = col]
  show "if snd ?p > snd ?h
      then \<exists>t. fst ?p = Some t
             \<and> analyze_column u re col = Some (make_finding col t (snd ?p) ''Pattern-Based'')
      else if snd ?h > 0
      then \<exists>t. fst ?h = Some t
             \<and> analyze_column u re col = Some (make_finding col t (snd ?h) ''Column Name Heuristic'')
      else analyze_column u re col = None"
  proof (cases "snd ?p > snd ?h")
    case True
    with c have "\<exists>t. fst ?p = Some t \<and> t \<noteq> [] \<and> 1/2 < snd ?p \<and> snd ?p \<le> 1
                 \<and> analyze_column u re col = Some (make_finding col t (snd ?p) ''Pattern-Based'')"
      by (simp only: if_True)
    then have "\<exists>t. fst ?p = Some t
             \<and> analyze_column u re col = Some (make_finding col t (snd ?p) ''Pattern-Based'')"
      by blast
    then show ?thesis by (simp only: True if_True)
  next
    case False
    show ?thesis
    proof (cases "snd ?h > 0")
      case True
      with c False have "\<exists>t. fst ?h = Some t \<and> t \<noteq> [] \<and> snd ?h \<in> {7/10, 8/10, 9/10}
                 \<and> analyze_column u re col = Some (make_finding col t (snd ?h) ''Column Name Heuristic'')"
        by (simp only: if_True if_False)
      then have "\<exists>t. fst ?h = Some t
             \<and> analyze_column u re col = Some (make_finding col t (snd ?h) ''Column Name Heuristic'')"
        by blast
      then show ?thesis by (simp only: True False if_True if_False)
    next
      case False2: False
      with c False have "analyze_column u re col = None" by (simp only: if_False)
      then show ?thesis by (simp only: False False2 if_False)
    qed
  qed
qed

theorem reconciliation_witness:
  "analyze_column plain_ucd ssn_engine
     \<lparr> name = ascii ''ssn'', dtype = ''object'',
       cells = [Some (ascii ''123-45-6789''), None, Some (ascii ''987-65-4321'')] \<rparr>
     = Some (make_finding \<lparr> name = ascii ''ssn'', dtype = ''object'',
         cells = [Some (ascii ''123-45-6789''), None, Some (ascii ''987-65-4321'')] \<rparr> ''SSN'' 1 ''Pattern-Based'')
   \<and> analyze_column plain_ucd ssn_engine
     \<lparr> name = ascii ''full_name'', dtype = ''object'',
       cells = [Some (ascii ''Ada Lovelace''), Some (ascii ''Alan Turing''), Some (ascii ''Ada Lovelace'')] \<rparr>
     = Some (make_finding \<lparr> name = ascii ''full_name'', dtype = ''object'',
         cells = [Some (ascii ''Ada Lovelace''), Some (ascii ''Alan Turing''), Some (ascii ''Ada Lovelace'')] \<rparr>
         ''NAME'' (9/10) ''Column Name Heuristic'')
   \<and> analyze_column plain_ucd ssn_engine
     \<lparr> name = ascii ''category'', dtype = ''object'', cells = [Some (ascii ''A''), Some (ascii ''B''), Some (ascii ''A'')] \<rparr>
     = None"
proof -
  let ?re = "ssn_engine"
  let ?c1 = "\<lparr> name = ascii ''ssn'', dtype = ''object'',
       cells = [Some (ascii ''123-45-6789''), None, Some (ascii ''987-65-4321'')] \<rparr>"
  let ?c2 = "\<lparr> name = ascii ''full_name'', dtype = ''object'',
       cells = [Some (ascii ''Ada Lovelace''), Some (ascii ''Alan Turing''), Some (ascii ''Ada Lovelace'')] \<rparr>"
  let ?c3 = "\<lparr> name = ascii ''category'', dtype = ''object'', cells = [Some (ascii ''A''), Some (ascii ''B''), Some (ascii ''A'')] \<rparr>"
  have n1: "name ?c1 = ascii ''ssn''" and n2: "name ?c2 = ascii ''full_name''" and n3: "name ?c3 = ascii ''category''"
    by simp_all
  have a: "analyze_column plain_ucd ?re ?c1 = Some (make_finding ?c1 ''SSN'' 1 ''Pattern-Based'')"
    using reconciliation [where u = plain_ucd and re = ?re and df = "[]" and col = ?c1]
    unfolding n1 ex_ssn_pattern ex_ssn_heuristic by simp
  have b: "analyze_column plain_ucd ?re ?c2 = Some (make_finding ?c2 ''NAME'' (9/10) ''Column Name Heuristic'')"
    using reconciliation [where u = plain_ucd and re = ?re and df = "[]" and col = ?c2]
    unfolding n2 ex_names_pattern heuristic_full_name by simp
  have c: "analyze_column plain_ucd ?re ?c3 = None"
    using reconciliation [where u = plain_ucd and re = ?re and df = "[]" and col = ?c3]
    unfolding n3 ex_category_pattern ex_category_heuristic by simp
  from a b c show ?thesis by blast
qed

text \<open>
  Claim C10. Every row of the result has a confidence above 0.5 and at most 1: a
  Pattern-Based row carries the pattern detector's match ratio, which is above 0.5 and
  at most 1, and a Column Name Heuristic row carries 0.7, 0.8 or 0.9.
\<close>

theorem finding_confidence_range:
  assumes "row \<in> set (analyze_dataset u re df)"
  shows "1/2 < Confidence row \<and> Confidence row \<le> 1
     \<and> (\<exists>col \<in> set df. Column_Name row = name col
          \<and> (Detection_Method row = ''Pattern-Based''
               \<and> detect_pattern_based re col = (Some (PII_Type row), Confidence row)
               \<and> 1/2 < Confidence row \<and> Confidence row \<le> 1
             \<or> Detection_Method row = ''Column Name Heuristic''
               \<and> detect_column_name_heuristic u (name col) = (Some (PII_Type row), Confidence row)
               \<and> Confidence row \<in> {7/10, 8/10, 9/10}))"
proof -
  from assms obtain col where col: "col \<in> set df" and ac: "analyze_column u re col = Some row"
    by (auto simp: set_analyze_dataset)
  let ?p = "detect_pattern_based re col" and ?h = "detect_column_name_heuristic u (name col)"
  note c = analyze_column_cases [where u = u and re = re and col = col]
  have "Column_Name row = name col
      \<and> (Detection_Method row = ''Pattern-Based''
               \<and> ?p = (Some (PII_Type row), Confidence row)
               \<and> 1/2 < Confidence row \<and> Confidence row \<le> 1
             \<or> Detection_Method row = ''Column Name Heuristic''
               \<and> ?h = (Some (PII_Type row), Confidence row)
               \<and> Confidence row \<in> {7/10, 8/10, 9/10})"
  proof (cases "snd ?p > snd ?h")
    case True
    with c obtain t where t: "fst ?p = Some t" "1/2 < snd ?p" "snd ?p \<le> 1"
      "analyze_column u re col = Some (make_finding col t (snd ?p) ''Pattern-Based'')"
      by (auto simp only: if_True)
    with ac have "row = make_finding col t (snd ?p) ''Pattern-Based''" by simp
    with t show ?thesis by (simp add: make_finding_def Let_def prod_eq_iff)
  next
    case False
    show ?thesis
    proof (cases "snd ?h > 0")
      case True
      with c False obtain t where t: "fst ?h = Some t" "snd ?h \<in> {7/10, 8/10, 9/10}"
        "analyze_column u re col = Some (make_finding col t (snd ?h) ''Column Name Heuristic'')"
        by (auto simp only: if_True if_False)
      with ac have "row = make_finding col t (snd ?h) ''Column Name Heuristic''" by simp
      with t show ?thesis by (simp add: make_finding_def Let_def prod_eq_iff)
    next
      case False2: False
      with c False have "analyze_column u re col = None" by (simp only: if_False)
      with ac show ?thesis by simp
    qed
  qed
  moreover from this have "1/2 < Confidence row \<and> Confidence row \<le> 1" by auto
  ultimately show ?thesis using col by blast
qed

theorem finding_confidence_range_witness:
  "make_finding \<lparr> name = ascii ''ssn'', dtype = ''object'',
       cells = [Some (ascii ''123-45-6789''), None, Some (ascii ''987-65-4321'')] \<rparr> ''SSN'' 1 ''Pattern-Based''
     \<in> set (analyze_dataset plain_ucd ssn_engine
          [\<lparr> name = ascii ''ssn'', dtype = ''object'',
             cells = [Some (ascii ''123-45-6789''), None, Some (ascii ''987-65-4321'')] \<rparr>])
   \<and> 1/2 < Confidence (make_finding \<lparr> name = ascii ''ssn'', dtype = ''object'',
       cells = [Some (ascii ''123-45-6789''), None, Some (ascii ''987-65-4321'')] \<rparr> ''SSN'' 1 ''Pattern-Based'')
   \<and> Confidence (make_finding \<lparr> name = ascii ''ssn'', dtype = ''object'',
       cells = [Some (ascii ''123-45-6789''), None, Some (ascii ''987-65-4321'')] \<rparr> ''SSN'' 1 ''Pattern-Based'') \<le> 1"
proof -
  let ?re = "ssn_engine"
  let ?c1 = "\<lparr> name = ascii ''ssn'', dtype = ''object'',
       cells = [Some (ascii ''123-45-6789''), None, Some (ascii ''987-65-4321'')] \<rparr>"
  let ?row = "make_finding ?c1 ''SSN'' 1 ''Pattern-Based''"
  have mem: "?row \<in> set (analyze_dataset plain_ucd ?re [?c1])"
    by (simp add: set_analyze_dataset ex_ssn_row)
  from finding_confidence_range [OF mem]
  have "1/2 < Confidence ?row \<and> Confidence ?row \<le> 1" by blast
  with mem show ?thesis by blast
qed

end
